theory Spec2Isabelle
  imports Main "HOL-Library.Char_ord" "HOL-Library.List_Lexorder"
begin

section \<open>Strings and paths of the Go standard library, as used by update.go\<close>

text \<open>
  A Go string is a sequence of bytes, here a \<^typ>\<open>string\<close> (a list of 8-bit characters).
  The development fixes the Unix build of the package: \<open>os.PathSeparator\<close> is the slash,
  \<open>folderutil.IsUnixOS()\<close> holds and there are no volume names, so that
  \<open>path/filepath\<close> behaves as documented for Unix.
\<close>

definition PathSeparator :: char where
  "PathSeparator = CHR ''/''"

text \<open>\<open>strings.Split(s, sep)\<close> for a separator of one byte: n separators give n + 1 pieces.\<close>

fun strings_Split :: "string \<Rightarrow> char \<Rightarrow> string list" where
  "strings_Split [] sep = [[]]"
| "strings_Split (c # cs) sep =
     (if c = sep then [] # strings_Split cs sep
      else (case strings_Split cs sep of [] \<Rightarrow> [[c]] | p # ps \<Rightarrow> (c # p) # ps))"

text \<open>\<open>strings.Join(elems, "/")\<close>.\<close>

fun strings_Join :: "string list \<Rightarrow> string" where
  "strings_Join [] = []"
| "strings_Join [e] = e"
| "strings_Join (e # f # es) = e @ PathSeparator # strings_Join (f # es)"

text \<open>\<open>strings.HasPrefix(s, prefix)\<close>.\<close>

definition strings_HasPrefix :: "string \<Rightarrow> string \<Rightarrow> bool" where
  "strings_HasPrefix s p = (length p \<le> length s \<and> take (length p) s = p)"

text \<open>
  \<open>strings.TrimSpace(s) == ""\<close>: every rune of \<open>s\<close> is white space in the sense of
  \<open>unicode.IsSpace\<close>. The ASCII ones are tab, line feed, vertical tab, form feed, carriage
  return and space; the others are U+0085 and U+00A0 (two bytes of UTF-8), and U+1680,
  U+2000 to U+200A, U+2028, U+2029, U+202F, U+205F and U+3000 (three bytes).
\<close>

definition asciiSpace :: "char \<Rightarrow> bool" where
  "asciiSpace c = (c \<in> {CHR 0x09, CHR 0x0A, CHR 0x0B, CHR 0x0C, CHR 0x0D, CHR 0x20})"

definition space2 :: "char \<Rightarrow> char \<Rightarrow> bool" where
  "space2 a b = (a = CHR 0xC2 \<and> (b = CHR 0x85 \<or> b = CHR 0xA0))"

definition space3 :: "char \<Rightarrow> char \<Rightarrow> char \<Rightarrow> bool" where
  "space3 a b c =
     ((a = CHR 0xE1 \<and> b = CHR 0x9A \<and> c = CHR 0x80) \<or>
      (a = CHR 0xE2 \<and> b = CHR 0x80 \<and>
         ((0x80 \<le> (of_char c :: nat) \<and> (of_char c :: nat) \<le> 0x8A) \<or>
          c = CHR 0xA8 \<or> c = CHR 0xA9 \<or> c = CHR 0xAF)) \<or>
      (a = CHR 0xE2 \<and> b = CHR 0x81 \<and> c = CHR 0x9F) \<or>
      (a = CHR 0xE3 \<and> b = CHR 0x80 \<and> c = CHR 0x80))"

fun TrimSpace_empty :: "string \<Rightarrow> bool" where
  "TrimSpace_empty [] = True"
| "TrimSpace_empty [a] = asciiSpace a"
| "TrimSpace_empty [a, b] = (if asciiSpace a then TrimSpace_empty [b] else space2 a b)"
| "TrimSpace_empty (a # b # c # s) =
     (if asciiSpace a then TrimSpace_empty (b # c # s)
      else if space2 a b then TrimSpace_empty (c # s)
      else if space3 a b c then TrimSpace_empty s
      else False)"

text \<open>
  \<open>strings.EqualFold(s, t)\<close> for an ASCII \<open>t\<close>, which is how update.go calls it (with
  ".version" and "README.md"). Two ASCII bytes match when they are equal up to the case of
  a letter. Under Unicode simple case folding only two runes beyond ASCII fold to an ASCII
  letter: U+017F (long s, bytes C5 BF) to s, and U+212A (Kelvin sign, bytes E2 84 AA) to k.
\<close>

definition isASCII :: "char \<Rightarrow> bool" where
  "isASCII c = ((of_char c :: nat) < 0x80)"

definition toLowerASCII :: "char \<Rightarrow> char" where
  "toLowerASCII c =
     (if (of_char (CHR ''A'') :: nat) \<le> of_char c \<and> (of_char c :: nat) \<le> of_char (CHR ''Z'')
      then char_of ((of_char c :: nat) + 32) else c)"

fun strings_EqualFold :: "string \<Rightarrow> string \<Rightarrow> bool" where
  "strings_EqualFold [] [] = True"
| "strings_EqualFold [] (t # ts) = False"
| "strings_EqualFold (c # cs) [] = False"
| "strings_EqualFold (c # cs) (t # ts) =
     (if isASCII c then toLowerASCII c = toLowerASCII t \<and> strings_EqualFold cs ts
      else if c = CHR 0xC5 \<and> take 1 cs = [CHR 0xBF] \<and> toLowerASCII t = CHR ''s''
        then strings_EqualFold (drop 1 cs) ts
      else if c = CHR 0xE2 \<and> take 2 cs = [CHR 0x84, CHR 0xAA] \<and> toLowerASCII t = CHR ''k''
        then strings_EqualFold (drop 2 cs) ts
      else False)"

text \<open>
  \<open>filepath.Split(path)\<close>: the directory is everything up to and including the last
  separator, the file name is what follows it.
\<close>

definition filepath_Split :: "string \<Rightarrow> string \<times> string" where
  "filepath_Split path =
     (let file = rev (takeWhile (\<lambda>c. c \<noteq> PathSeparator) (rev path))
      in (take (length path - length file) path, file))"

text \<open>
  \<open>filepath.Clean(path)\<close>, element by element. The output buffer is a stack of elements
  (the last one first). An empty element and "." are dropped; ".." removes the element
  before it when that is not itself a leading "..", is dropped at the root of a rooted
  path and is kept otherwise. The empty result is ".".
\<close>

fun cleanStep :: "bool \<Rightarrow> string list \<Rightarrow> string \<Rightarrow> string list" where
  "cleanStep rooted out e =
     (if e = [] \<or> e = ''.'' then out
      else if e = ''..'' then
        (case out of
           [] \<Rightarrow> if rooted then [] else [''..'']
         | x # xs \<Rightarrow> if x = ''..'' then ''..'' # out else xs)
      else e # out)"

definition isRooted :: "string \<Rightarrow> bool" where
  "isRooted path = (path \<noteq> [] \<and> hd path = PathSeparator)"

definition cleanElems :: "string \<Rightarrow> string list" where
  "cleanElems path = rev (foldl (cleanStep (isRooted path)) [] (strings_Split path PathSeparator))"

definition filepath_Clean :: "string \<Rightarrow> string" where
  "filepath_Clean path =
     (if isRooted path then PathSeparator # strings_Join (cleanElems path)
      else if cleanElems path = [] then ''.''
      else strings_Join (cleanElems path))"

text \<open>
  \<open>filepath.Join(elem...)\<close>: empty elements before the first non-empty one are ignored,
  the rest is joined with the separator and cleaned; with no non-empty element the result
  is the empty string.
\<close>

definition filepath_Join :: "string list \<Rightarrow> string" where
  "filepath_Join elem =
     (case dropWhile (\<lambda>e. e = []) elem of
        [] \<Rightarrow> []
      | e # es \<Rightarrow> filepath_Clean (strings_Join (e # es)))"

section \<open>calculateTemplateAbsolutePath\<close>

text \<open>
  An error is its message, as \<open>%v\<close> prints it. The file system is an abstract state
  \<open>'fs\<close> that every operation of package \<open>os\<close> takes and returns:
  \<open>os.MkdirAll(dir, os.ModePerm)\<close> and \<open>os.WriteFile(name, data, perm)\<close> give the
  error, if any, and the file system afterwards.
\<close>

type_synonym error = string

record 'fs OS =
  MkdirAll :: "string \<Rightarrow> 'fs \<Rightarrow> error option \<times> 'fs"
  WriteFile :: "string \<Rightarrow> string \<Rightarrow> nat \<Rightarrow> 'fs \<Rightarrow> error option \<times> 'fs"

text \<open>
  The result is Go's triple (path, skip, error) and the file system afterwards.
  \<open>strings.Split\<close> never returns an empty slice, so \<open>directoryPathChunks[1:]\<close> is in
  range and is \<open>drop 1\<close>.
\<close>

definition calculateTemplateAbsolutePath ::
  "'fs OS \<Rightarrow> string \<Rightarrow> string \<Rightarrow> 'fs \<Rightarrow> (string \<times> bool \<times> error option) \<times> 'fs" where
  "calculateTemplateAbsolutePath os zipFilePath configuredTemplateDirectory fs =
     (let (directory, fileName) = filepath_Split zipFilePath in
      if \<not> strings_EqualFold fileName ''.version'' \<and>
         (TrimSpace_empty fileName \<or> strings_HasPrefix fileName ''.'' \<or>
          strings_EqualFold fileName ''README.md'')
      then (([], True, None), fs)
      else
        let directoryPathChunks = strings_Split directory PathSeparator;
            relativeDirectoryPathWithoutZipRoot = filepath_Join (drop 1 directoryPathChunks)
        in
          if strings_HasPrefix relativeDirectoryPathWithoutZipRoot ''.''
          then (([], True, None), fs)
          else
            let templateDirectory =
                  filepath_Join [configuredTemplateDirectory, relativeDirectoryPathWithoutZipRoot]
            in
              case MkdirAll os templateDirectory fs of
                (Some err, fs') \<Rightarrow>
                  (([], False,
                    Some (''failed to create template folder: '' @ templateDirectory @ ''. '' @ err)),
                   fs')
              | (None, fs') \<Rightarrow> ((filepath_Join [templateDirectory, fileName], False, None), fs'))"

text \<open>The parts of an entry path that the function looks at, named for the statements below.\<close>

definition fileNameOf :: "string \<Rightarrow> string" where
  "fileNameOf zipFilePath = snd (filepath_Split zipFilePath)"

definition relativeDirectoryOf :: "string \<Rightarrow> string" where
  "relativeDirectoryOf zipFilePath =
     filepath_Join (drop 1 (strings_Split (fst (filepath_Split zipFilePath)) PathSeparator))"

text \<open>
  The directory of an entry path with its first component removed and nothing else done
  to it: the elements after the first, put together again with the separator. For
  root/./a/f.txt it is ./a/ (the function itself goes on with the cleaned join, a).
\<close>

definition strippedDirectoryOf :: "string \<Rightarrow> string" where
  "strippedDirectoryOf zipFilePath =
     strings_Join (drop 1 (strings_Split (fst (filepath_Split zipFilePath)) PathSeparator))"

definition skipsFileName :: "string \<Rightarrow> bool" where
  "skipsFileName fileName =
     (\<not> strings_EqualFold fileName ''.version'' \<and>
      (TrimSpace_empty fileName \<or> strings_HasPrefix fileName ''.'' \<or>
       strings_EqualFold fileName ''README.md''))"

text \<open>
  A path is a descendant of a directory when, both cleaned, they are rooted alike and the
  elements of the path are those of the directory followed by at least one more element,
  none of them "..".
\<close>

definition isDescendant :: "string \<Rightarrow> string \<Rightarrow> bool" where
  "isDescendant path dir =
     (let p = cleanElems path; d = cleanElems dir in
      isRooted path = isRooted dir \<and> length d < length p \<and> take (length d) p = d \<and>
      ''..'' \<notin> set (drop (length d) p))"

text \<open>Elements that \<open>filepath.Clean\<close> keeps as they are, and the shape of its buffer.\<close>

definition realElem :: "string \<Rightarrow> bool" where
  "realElem e = (e \<noteq> [] \<and> e \<noteq> ''.'' \<and> e \<noteq> ''..'' \<and> PathSeparator \<notin> set e)"

definition nfStack :: "bool \<Rightarrow> string list \<Rightarrow> bool" where
  "nfStack r st =
     (\<exists>rs n. st = rs @ replicate n ''..'' \<and> (\<forall>e\<in>set rs. realElem e) \<and> (r \<longrightarrow> n = 0))"

section \<open>Package state and its initialisation\<close>

text \<open>
  The package variables of update.go. A \<open>time.Duration\<close> is a number of nanoseconds; a
  pointer that may be nil is an option.
\<close>

datatype proxy = ProxyFromEnvironment | NoProxy

record tls_Config =
  InsecureSkipVerify :: bool

record http_Transport =
  Proxy :: proxy
  TLSClientConfig :: "tls_Config option"

record http_Client =
  Timeout :: int
  Transport :: "http_Transport option"

record globals =
  HideReleaseNotes :: bool
  HideProgressBar :: bool
  VersionCheckTimeout :: int
  DownloadUpdateTimeout :: int
  DefaultHttpClient :: "http_Client option"

definition Second :: int where
  "Second = 1000000000"

text \<open>The variable initialisers, which run before \<open>init\<close>.\<close>

definition initialGlobals :: globals where
  "initialGlobals =
     \<lparr>HideReleaseNotes = False, HideProgressBar = False,
      VersionCheckTimeout = 5 * Second, DownloadUpdateTimeout = 30 * Second,
      DefaultHttpClient = None\<rparr>"

definition init :: "globals \<Rightarrow> globals" where
  "init g =
     g\<lparr>DefaultHttpClient :=
         Some \<lparr>Timeout = VersionCheckTimeout g,
               Transport =
                 Some \<lparr>Proxy = ProxyFromEnvironment,
                       TLSClientConfig = Some \<lparr>InsecureSkipVerify = True\<rparr>\<rparr>\<rparr>\<rparr>"

section \<open>The release source and the other collaborators\<close>

text \<open>
  What the callbacks use of a \<open>GHReleaseDownloader\<close>: the tag name and the body of the
  latest release, the asset id as \<open>%v\<close> prints it, and the tool name that
  \<open>SetToolName\<close> stores.
\<close>

record GHReleaseDownloader =
  TagName :: string
  Body :: string
  AssetID :: string
  toolName :: string

text \<open>One entry of the source archive: its name, its mode and what reading its data gives.\<close>

record entry =
  Name :: string
  Mode :: nat
  Data :: "error + string"

text \<open>
  Code outside update.go is a parameter. \<open>NewVersion\<close> is \<open>semver.NewVersion\<close>
  followed by \<open>String()\<close>; \<open>Apply\<close> is \<open>selfupdate.Apply\<close> on the bytes of the
  executable; \<open>Render\<close> is \<open>NewTermRenderer\<close>'s renderer, told whether it was created;
  \<open>NewWithErr e msg tags\<close> is \<open>errorutil.NewWithErr(e).Msgf(msg)\<close> with the tags of
  \<open>WithTag\<close>; \<open>SourceArchive\<close> is the sequence of entries of the downloaded source archive.
\<close>

record env =
  NewghReleaseDownloader :: "string \<Rightarrow> error + GHReleaseDownloader"
  NewVersion :: "string \<Rightarrow> error + string"
  IsOutdated :: "string \<Rightarrow> string \<Rightarrow> bool"
  CheckPermissions :: "error option"
  GetExecutableFromAsset :: "GHReleaseDownloader \<Rightarrow> GHReleaseDownloader \<times> (error + string)"
  Apply :: "string \<Rightarrow> error option"
  RollbackError :: "error \<Rightarrow> error option"
  HiGreenString :: "string \<Rightarrow> string"
  NewTermRenderer :: "error option"
  Render :: "bool \<Rightarrow> string \<Rightarrow> error + string"
  NewWithErr :: "error \<Rightarrow> string \<Rightarrow> string list \<Rightarrow> error"
  SourceArchive :: "GHReleaseDownloader \<Rightarrow> error + entry list"
  GOOS :: string
  GOARCH :: string
  runtime_Version :: string
  ProtectedID :: "string \<Rightarrow> error + string"

section \<open>Updating the executable\<close>

text \<open>
  A run of the callback is the sequence of its calls to the collaborators and of its log
  lines, in order, and how it ends. \<open>gologger.Fatal()\<close> prints its line and exits with
  status 1.
\<close>

datatype level = Print | Info | Error | Fatal

datatype event =
    Call_NewghReleaseDownloader string
  | Call_SetToolName string
  | Call_CheckPermissions
  | Call_GetExecutableFromAsset
  | Call_Apply string
  | Call_RollbackError error
  | Log level string string

datatype outcome = Returned | Exit int

type_synonym run = "event list \<times> outcome"

definition emit :: "event list \<Rightarrow> run \<Rightarrow> run" where
  "emit es r = (es @ fst r, snd r)"

definition gologger_Fatal :: "string \<Rightarrow> string \<Rightarrow> run" where
  "gologger_Fatal label msg = ([Log Fatal label msg], Exit 1)"

text \<open>The lines that the callback prints with \<open>Msgf\<close>, as functions of their arguments.\<close>

definition msgDownloadFailed :: "error \<Rightarrow> string" where
  "msgDownloadFailed err = ''failed to download latest release got '' @ err"

definition msgTagNotSemver :: "string \<Rightarrow> error \<Rightarrow> string" where
  "msgTagNotSemver tag err =
     ''failed to parse semversion from tagname `'' @ tag @ ''` got '' @ err"

definition msgVersionNotSemver :: "string \<Rightarrow> error \<Rightarrow> string" where
  "msgVersionNotSemver version err =
     ''failed to parse semversion from current version '' @ version @ '' got '' @ err"

definition msgAlreadyUpdated :: "string \<Rightarrow> string" where
  "msgAlreadyUpdated tool = tool @ '' is already updated to latest version''"

definition msgInsufficientPermission :: "string \<Rightarrow> string \<Rightarrow> string \<Rightarrow> error \<Rightarrow> string" where
  "msgInsufficientPermission tool current latest err =
     ''update of '' @ tool @ '' '' @ current @ '' -> '' @ latest @
     '' failed , insufficient permission detected got: '' @ err"

definition msgExecutableNotFound :: "string \<Rightarrow> string \<Rightarrow> error \<Rightarrow> string" where
  "msgExecutableNotFound tool assetID err =
     ''executable '' @ tool @ '' not found in release asset `'' @ assetID @ ''` got: '' @ err"

definition msgRollingBack :: "string \<Rightarrow> string \<Rightarrow> string \<Rightarrow> string" where
  "msgRollingBack tool current latest =
     ''update of '' @ tool @ '' '' @ current @ '' -> '' @ latest @
     '' failed, rolling back update''"

definition msgRollbackFailed :: "string \<Rightarrow> error \<Rightarrow> string" where
  "msgRollbackFailed tool err =
     ''rollback of update of '' @ tool @ '' failed got '' @ err @ '',pls reinstall '' @ tool"

definition msgUpdated :: "string \<Rightarrow> string \<Rightarrow> string \<Rightarrow> string \<Rightarrow> string" where
  "msgUpdated tool current latest tag =
     tool @ '' sucessfully updated '' @ current @ '' -> '' @ latest @ '' ('' @ tag @ '')''"

definition printReleaseNotes :: "env \<Rightarrow> GHReleaseDownloader \<Rightarrow> event list" where
  "printReleaseNotes e gh =
     (let output = Body gh;
          l1 = (case NewTermRenderer e of
                  Some err \<Rightarrow> [Log Error [] (''markdown rendering not supported: '' @ err)]
                | None \<Rightarrow> [])
      in case Render e (NewTermRenderer e = None) output of
           Inr rendered \<Rightarrow> l1 @ [Log Print [] (rendered @ [CHR 0x0A, CHR 0x0A])]
         | Inl err \<Rightarrow> l1 @ [Log Error [] err, Log Print [] (output @ [CHR 0x0A, CHR 0x0A])])"

definition GetUpdateToolFromRepoCallback ::
  "env \<Rightarrow> globals \<Rightarrow> string \<Rightarrow> string \<Rightarrow> string \<Rightarrow> run" where
  "GetUpdateToolFromRepoCallback e g tool version repoName0 =
     (let repoName = (if repoName0 = [] then tool else repoName0) in
      emit [Call_NewghReleaseDownloader repoName]
      (case NewghReleaseDownloader e repoName of
         Inl err \<Rightarrow> gologger_Fatal ''updater'' (msgDownloadFailed err)
       | Inr gh0 \<Rightarrow>
           let gh = gh0\<lparr>toolName := tool\<rparr> in
           emit [Call_SetToolName tool]
           (case NewVersion e (TagName gh) of
              Inl err \<Rightarrow> gologger_Fatal ''updater'' (msgTagNotSemver (TagName gh) err)
            | Inr latestVersion \<Rightarrow>
                (case NewVersion e version of
                   Inl err \<Rightarrow> gologger_Fatal ''updater'' (msgVersionNotSemver version err)
                 | Inr currentVersion \<Rightarrow>
                     if \<not> IsOutdated e currentVersion latestVersion
                     then ([Log Info [] (msgAlreadyUpdated tool)], Exit 0)
                     else
                       emit [Call_CheckPermissions]
                       (case CheckPermissions e of
                          Some err \<Rightarrow>
                            gologger_Fatal ''updater''
                              (msgInsufficientPermission tool currentVersion latestVersion err)
                        | None \<Rightarrow>
                            emit [Call_GetExecutableFromAsset]
                            (case GetExecutableFromAsset e gh of
                               (gh', Inl err) \<Rightarrow>
                                 gologger_Fatal ''updater''
                                   (msgExecutableNotFound tool (AssetID gh') err)
                             | (gh', Inr bin) \<Rightarrow>
                                 emit [Call_Apply bin]
                                 (case Apply e bin of
                                    Some err \<Rightarrow>
                                      emit
                                        [Log Error []
                                           (msgRollingBack tool currentVersion latestVersion),
                                         Call_RollbackError err]
                                        (case RollbackError e err of
                                           Some err' \<Rightarrow>
                                             gologger_Fatal ''updater''
                                               (msgRollbackFailed tool err')
                                         | None \<Rightarrow> ([], Exit 1))
                                  | None \<Rightarrow>
                                      emit
                                        [Log Print [] [],
                                         Log Info []
                                           (msgUpdated tool currentVersion latestVersion
                                              (HiGreenString e ''latest''))]
                                        ((if \<not> HideReleaseNotes g then printReleaseNotes e gh'
                                          else []),
                                         Exit 0))))))))"

definition GetUpdateToolCallback :: "env \<Rightarrow> globals \<Rightarrow> string \<Rightarrow> string \<Rightarrow> run" where
  "GetUpdateToolCallback e g tool version = GetUpdateToolFromRepoCallback e g tool version []"

section \<open>Asking for the latest version\<close>

definition GetToolVersionCallback ::
  "env \<Rightarrow> string \<Rightarrow> string \<Rightarrow> event list \<times> (error + string)" where
  "GetToolVersionCallback e tool repoName0 =
     (let repoName = (if repoName0 = [] then tool else repoName0) in
      case NewghReleaseDownloader e repoName of
        Inl err \<Rightarrow>
          ([Call_NewghReleaseDownloader repoName],
           Inl (NewWithErr e err (msgDownloadFailed err) [''updater'']))
      | Inr gh0 \<Rightarrow>
          let gh = gh0\<lparr>toolName := tool\<rparr> in
          (case NewVersion e (TagName gh) of
             Inl err \<Rightarrow>
               ([Call_NewghReleaseDownloader repoName, Call_SetToolName tool],
                Inl (NewWithErr e err (msgTagNotSemver (TagName gh) err) [''updater'']))
           | Inr latestVersion \<Rightarrow>
               ([Call_NewghReleaseDownloader repoName, Call_SetToolName tool], Inr latestVersion)))"

section \<open>Extracting the source archive into a directory\<close>

text \<open>The callback that GetUpdateDirFromRepoCallback hands to the downloader, for one entry.\<close>

definition callback :: "env \<Rightarrow> 'fs OS \<Rightarrow> string \<Rightarrow> entry \<Rightarrow> 'fs \<Rightarrow> error option \<times> 'fs" where
  "callback e os dir f fs =
     (case calculateTemplateAbsolutePath os (Name f) dir fs of
        ((templateAbsolutePath, skipFile, Some err), fs') \<Rightarrow> (Some err, fs')
      | ((templateAbsolutePath, skipFile, None), fs') \<Rightarrow>
          if skipFile then (None, fs')
          else
            (case Data f of
               Inl err \<Rightarrow>
                 (Some (NewWithErr e err (''failed to read file '' @ templateAbsolutePath) []), fs')
             | Inr bin \<Rightarrow> WriteFile os templateAbsolutePath bin (Mode f) fs'))"

text \<open>
  Modelled from the spec: \<open>DownloadSourceWithCallback\<close> belongs to the release
  downloader, another file of the package. By section 4.4 of the specification (mode B)
  the entries of the archive are visited one at a time, in order, and a failure of the
  callback aborts the remaining iteration and is the failure of the operation.
\<close>

fun forEachEntry ::
  "(entry \<Rightarrow> 'fs \<Rightarrow> error option \<times> 'fs) \<Rightarrow> entry list \<Rightarrow> 'fs \<Rightarrow> error option \<times> 'fs" where
  "forEachEntry cb [] fs = (None, fs)"
| "forEachEntry cb (f # fs') fs =
     (case cb f fs of
        (Some err, fs1) \<Rightarrow> (Some err, fs1)
      | (None, fs1) \<Rightarrow> forEachEntry cb fs' fs1)"

definition DownloadSourceWithCallback ::
  "env \<Rightarrow> GHReleaseDownloader \<Rightarrow> (entry \<Rightarrow> 'fs \<Rightarrow> error option \<times> 'fs) \<Rightarrow> 'fs \<Rightarrow>
   error option \<times> 'fs" where
  "DownloadSourceWithCallback e downloader cb fs =
     (case SourceArchive e downloader of
        Inl err \<Rightarrow> (Some err, fs)
      | Inr entries \<Rightarrow> forEachEntry cb entries fs)"

definition GetUpdateDirFromRepoCallback ::
  "env \<Rightarrow> 'fs OS \<Rightarrow> string \<Rightarrow> string \<Rightarrow> string \<Rightarrow> 'fs \<Rightarrow>
   event list \<times> error option \<times> 'fs" where
  "GetUpdateDirFromRepoCallback e os tool dir repoName0 fs =
     (let repoName = (if repoName0 = [] then tool else repoName0) in
      case NewghReleaseDownloader e repoName of
        Inl err \<Rightarrow>
          ([Call_NewghReleaseDownloader repoName],
           Some (NewWithErr e err (msgDownloadFailed err) [''updater'']),
           fs)
      | Inr downloader \<Rightarrow>
          (case DownloadSourceWithCallback e downloader (callback e os dir) fs of
             (Some err, fs') \<Rightarrow>
               ([Call_NewghReleaseDownloader repoName],
                Some (NewWithErr e err (msgDownloadFailed err) []),
                fs')
           | (None, fs') \<Rightarrow> ([Call_NewghReleaseDownloader repoName], None, fs')))"

definition GetUpdateDirFromRepoNoErrCallback ::
  "env \<Rightarrow> 'fs OS \<Rightarrow> string \<Rightarrow> string \<Rightarrow> string \<Rightarrow> 'fs \<Rightarrow> run \<times> 'fs" where
  "GetUpdateDirFromRepoNoErrCallback e os tool dir repoName fs =
     (case GetUpdateDirFromRepoCallback e os tool dir repoName fs of
        (evs, Some err, fs') \<Rightarrow>
          (emit evs (gologger_Fatal [] (''failed to update '' @ tool @ '' got '' @ err)), fs')
      | (evs, None, fs') \<Rightarrow> ((evs, Returned), fs'))"

section \<open>The parameters of the version check\<close>

text \<open>
  \<open>url.QueryEscape\<close>: letters, digits and the four marks - _ . ~ stay, a space becomes a
  plus sign, every other byte becomes a percent sign and two upper-case hexadecimal digits.
\<close>

definition upperhex :: string where
  "upperhex = ''0123456789ABCDEF''"

definition isAlnum :: "char \<Rightarrow> bool" where
  "isAlnum c =
     (let n = (of_char c :: nat) in
      (97 \<le> n \<and> n \<le> 122) \<or> (65 \<le> n \<and> n \<le> 90) \<or> (48 \<le> n \<and> n \<le> 57))"

definition shouldEscape :: "char \<Rightarrow> bool" where
  "shouldEscape c = (\<not> isAlnum c \<and> c \<notin> {CHR ''-'', CHR ''_'', CHR ''.'', CHR ''~''})"

definition escapeByte :: "char \<Rightarrow> string" where
  "escapeByte c =
     (if c = CHR '' '' then ''+''
      else if shouldEscape c
        then [CHR ''%'', upperhex ! ((of_char c :: nat) div 16), upperhex ! ((of_char c :: nat) mod 16)]
      else [c])"

definition QueryEscape :: "string \<Rightarrow> string" where
  "QueryEscape s = concat (map escapeByte s)"

text \<open>
  \<open>url.Values\<close> maps a key to its values; here a list of pairs with distinct keys.
  \<open>Add\<close> appends a value to those of its key. \<open>Encode\<close> visits the keys in sorted
  order and writes key=value for every value, with an ampersand before each but the first.
\<close>

type_synonym Values = "(string \<times> string list) list"

definition Values_Add :: "Values \<Rightarrow> string \<Rightarrow> string \<Rightarrow> Values" where
  "Values_Add v key val =
     (if key \<in> set (map fst v)
      then map (\<lambda>(k, vs). if k = key then (k, vs @ [val]) else (k, vs)) v
      else v @ [(key, [val])])"

definition writePair :: "string \<Rightarrow> string \<Rightarrow> string \<Rightarrow> string" where
  "writePair keyEscaped buf val =
     (if buf \<noteq> [] then buf @ ''&'' else buf) @ keyEscaped @ ''='' @ QueryEscape val"

definition Values_Encode :: "Values \<Rightarrow> string" where
  "Values_Encode v =
     foldl (\<lambda>buf k. case map_of v k of
                       None \<Rightarrow> buf
                     | Some vs \<Rightarrow> foldl (writePair (QueryEscape k)) buf vs)
       [] (sort (map fst v))"

definition buildMachineId :: "env \<Rightarrow> string" where
  "buildMachineId e = (case ProtectedID e ''pdtm'' of Inl err \<Rightarrow> ''unknown'' | Inr machineId \<Rightarrow> machineId)"

definition GetpdtmParams :: "env \<Rightarrow> string \<Rightarrow> string" where
  "GetpdtmParams e version =
     (let params = [];
          params = Values_Add params ''os'' (GOOS e);
          params = Values_Add params ''arch'' (GOARCH e);
          params = Values_Add params ''go_version'' (runtime_Version e);
          params = Values_Add params ''v'' version;
          params = Values_Add params ''machine_id'' (buildMachineId e)
      in Values_Encode params)"

text \<open>
  The names of the parameters of an encoded query: the text before the first equals sign
  of each piece between ampersands; the empty query has none.
\<close>

definition queryKeys :: "string \<Rightarrow> string list" where
  "queryKeys q =
     (if q = [] then []
      else map (takeWhile (\<lambda>c. c \<noteq> CHR ''='')) (strings_Split q (CHR ''&'')))"

section \<open>Properties of a run\<close>

text \<open>
  The events that obtain the bytes of the new executable or write it, and the property
  of a run that none of the events singled out comes before the given one (or at all,
  when that one never comes).
\<close>

fun fetchesOrWrites :: "event \<Rightarrow> bool" where
  "fetchesOrWrites Call_GetExecutableFromAsset = True"
| "fetchesOrWrites (Call_Apply bin) = True"
| "fetchesOrWrites ev = False"

fun noneBefore :: "(event \<Rightarrow> bool) \<Rightarrow> event \<Rightarrow> event list \<Rightarrow> bool" where
  "noneBefore P g [] = True"
| "noneBefore P g (ev # evs) = (if ev = g then True else \<not> P ev \<and> noneBefore P g evs)"

fun isFatalLog :: "event \<Rightarrow> bool" where
  "isFatalLog (Log Fatal label msg) = True"
| "isFatalLog ev = False"

section \<open>Sample collaborators\<close>

text \<open>A file system that only records, in order, the directories and files it is asked for.\<close>

definition logOS :: "string list OS" where
  "logOS = \<lparr>MkdirAll = (\<lambda>d fs. (None, fs @ [d])), WriteFile = (\<lambda>n b m fs. (None, fs @ [n]))\<rparr>"

text \<open>The same, except that the directory /base/bad cannot be created.\<close>

definition denyOS :: "string list OS" where
  "denyOS =
     \<lparr>MkdirAll = (\<lambda>d fs. if d = ''/base/bad'' then (Some ''permission denied'', fs)
                         else (None, fs @ [d])),
      WriteFile = (\<lambda>n b m fs. (None, fs @ [n]))\<rparr>"

text \<open>
  A release source with one release, v1.1.0, whose archive has three files; every
  collaborator succeeds.
\<close>

definition sampleRelease :: GHReleaseDownloader where
  "sampleRelease = \<lparr>TagName = ''v1.1.0'', Body = ''notes'', AssetID = ''7'', toolName = []\<rparr>"

definition sampleArchive :: "entry list" where
  "sampleArchive =
     [\<lparr>Name = ''root/a/x.txt'', Mode = 420, Data = Inr ''x''\<rparr>,
      \<lparr>Name = ''root/bad/y.txt'', Mode = 420, Data = Inr ''y''\<rparr>,
      \<lparr>Name = ''root/c/z.txt'', Mode = 420, Data = Inr ''z''\<rparr>]"

definition sampleEnv :: env where
  "sampleEnv =
     \<lparr>NewghReleaseDownloader = (\<lambda>repoName. Inr sampleRelease),
      NewVersion = (\<lambda>s. Inr (drop 1 s)),
      IsOutdated = (\<lambda>current latest. current \<noteq> latest),
      CheckPermissions = None,
      GetExecutableFromAsset = (\<lambda>gh. (gh, Inr ''ELF'')),
      Apply = (\<lambda>bin. None),
      RollbackError = (\<lambda>err. None),
      HiGreenString = (\<lambda>s. s),
      NewTermRenderer = None,
      Render = (\<lambda>created s. Inr s),
      NewWithErr = (\<lambda>err msg tags. msg),
      SourceArchive = (\<lambda>gh. Inr sampleArchive),
      GOOS = ''linux'',
      GOARCH = ''amd64'',
      runtime_Version = ''go1.21.0'',
      ProtectedID = (\<lambda>appID. Inr ''0123abcd'')\<rparr>"

text \<open>The same collaborators, except that applying the update fails; the rollback works.\<close>

definition applyFailsEnv :: env where
  "applyFailsEnv = sampleEnv\<lparr>Apply := (\<lambda>bin. Some ''disk full'')\<rparr>"

text \<open>The same, except that the rollback fails as well.\<close>

definition rollbackFailsEnv :: env where
  "rollbackFailsEnv = applyFailsEnv\<lparr>RollbackError := (\<lambda>err. Some ''cannot restore'')\<rparr>"

text \<open>
  Two release sources whose answer depends on the name asked for: the first knows the
  repository tool only, the second knows every repository but tool.
\<close>

definition namedEnv :: env where
  "namedEnv =
     sampleEnv\<lparr>NewghReleaseDownloader :=
       (\<lambda>repoName. if repoName = ''tool'' then Inr sampleRelease else Inl ''no such repository'')\<rparr>"

definition missingEnv :: env where
  "missingEnv =
     sampleEnv\<lparr>NewghReleaseDownloader :=
       (\<lambda>repoName. if repoName = ''tool'' then Inl ''no release'' else Inr sampleRelease)\<rparr>"

section \<open>Path resolution stays below the base directory\<close>

lemma strings_Split_nonempty [simp]: "strings_Split s c \<noteq> []"
  by (induction s) (auto split: list.splits)

lemma strings_Split_nosep: "e \<in> set (strings_Split s c) \<Longrightarrow> c \<notin> set e"
proof (induction s arbitrary: e)
  case Nil
  then show ?case by simp
next
  case (Cons x s)
  show ?case
  proof (cases "x = c")
    case True
    with Cons show ?thesis by auto
  next
    case False
    obtain p ps where sp: "strings_Split s c = p # ps"
      by (cases "strings_Split s c") auto
    with Cons.prems False have "e = x # p \<or> e \<in> set ps" by simp
    then show ?thesis using Cons.IH [of p] Cons.IH [of e] sp False by auto
  qed
qed

lemma strings_Split_append:
  "strings_Split (a @ c # b) c = strings_Split a c @ strings_Split b c"
proof (induction a)
  case Nil
  then show ?case by simp
next
  case (Cons x a)
  obtain p ps where sp: "strings_Split a c = p # ps"
    by (cases "strings_Split a c") auto
  with Cons show ?case by simp
qed

lemma strings_Split_single: "c \<notin> set e \<Longrightarrow> strings_Split e c = [e]"
  by (induction e) auto

lemma strings_Split_Join:
  "es \<noteq> [] \<Longrightarrow> \<forall>e\<in>set es. PathSeparator \<notin> set e \<Longrightarrow>
   strings_Split (strings_Join es) PathSeparator = es"
proof (induction es rule: strings_Join.induct)
  case 1
  then show ?case by simp
next
  case (2 e)
  then show ?case by (simp add: strings_Split_single)
next
  case (3 e f es)
  then show ?case by (simp add: strings_Split_append strings_Split_single)
qed

lemma foldl_cleanStep_real:
  "\<forall>e\<in>set es. realElem e \<Longrightarrow> foldl (cleanStep r) st es = rev es @ st"
  by (induction es arbitrary: st) (auto simp: realElem_def)

lemma cleanStep_nf:
  assumes "nfStack r st" and "PathSeparator \<notin> set e"
  shows "nfStack r (cleanStep r st e)"
proof -
  from assms(1) obtain rs n where st: "st = rs @ replicate n ''..''"
    and rs: "\<forall>e\<in>set rs. realElem e" and rn: "r \<longrightarrow> n = 0"
    by (auto simp: nfStack_def)
  consider (skip) "e = [] \<or> e = ''.''" | (up) "e = ''..''" | (real) "realElem e"
    using assms(2) by (auto simp: realElem_def)
  then show ?thesis
  proof cases
    case skip
    then show ?thesis using assms(1) by auto
  next
    case real
    then have "cleanStep r st e = (e # rs) @ replicate n ''..''"
      by (auto simp: st realElem_def)
    moreover have "\<forall>x\<in>set (e # rs). realElem x" using rs real by simp
    ultimately show ?thesis unfolding nfStack_def using rn by blast
  next
    case up
    show ?thesis
    proof (cases rs)
      case (Cons x xs)
      then have "x \<noteq> ''..''" using rs by (auto simp: realElem_def)
      then have "cleanStep r st e = xs @ replicate n ''..''"
        using up Cons st by simp
      then show ?thesis unfolding nfStack_def using rs rn Cons by auto
    next
      case Nil
      show ?thesis
      proof (cases n)
        case 0
        then have "cleanStep r st e = [] @ replicate (if r then 0 else 1) ''..''"
          using up Nil st by simp
        moreover have "r \<longrightarrow> (if r then 0 else 1) = (0::nat)" by simp
        moreover have "\<forall>x\<in>set ([]::string list). realElem x" by simp
        ultimately show ?thesis unfolding nfStack_def by blast
      next
        case (Suc m)
        then have "cleanStep r st e = [] @ replicate (Suc n) ''..''"
          using up Nil st by simp
        moreover have "\<not> r" using rn Suc by simp
        moreover have "\<forall>x\<in>set ([]::string list). realElem x" by simp
        ultimately show ?thesis unfolding nfStack_def by blast
      qed
    qed
  qed
qed

lemma foldl_cleanStep_nf:
  "nfStack r st \<Longrightarrow> \<forall>e\<in>set es. PathSeparator \<notin> set e \<Longrightarrow> nfStack r (foldl (cleanStep r) st es)"
  by (induction es arbitrary: st) (simp_all add: cleanStep_nf del: cleanStep.simps)

lemma nfStack_Nil [simp]: "nfStack r []"
  by (auto simp: nfStack_def)

lemma cleanElems_nf: "nfStack (isRooted path) (rev (cleanElems path))"
  unfolding cleanElems_def
  by (simp add: foldl_cleanStep_nf strings_Split_nosep del: cleanStep.simps)



declare cleanStep.simps [simp del]

lemma cleanStep_dotdots:
  "cleanStep False (replicate m ''..'') ''..'' = replicate (Suc m) ''..''"
  by (cases m) (simp_all add: cleanStep.simps)

lemma foldl_cleanStep_dotdots:
  "foldl (cleanStep False) (replicate m ''..'') (replicate n ''..'') = replicate (n + m) ''..''"
proof (induction n arbitrary: m)
  case 0
  then show ?case by simp
next
  case (Suc n)
  have "foldl (cleanStep False) (replicate m ''..'') (replicate (Suc n) ''..'')
        = foldl (cleanStep False) (replicate (Suc m) ''..'') (replicate n ''..'')"
    by (simp only: replicate_Suc foldl_Cons cleanStep_dotdots)
  then show ?case using Suc.IH [of "Suc m"] by simp
qed

lemma reclean:
  assumes "nfStack r st"
  shows "foldl (cleanStep r) [] (rev st) = st"
proof -
  from assms obtain rs n where st: "st = rs @ replicate n ''..''"
    and rs: "\<forall>e\<in>set rs. realElem e" and rn: "r \<longrightarrow> n = 0"
    by (auto simp: nfStack_def)
  have a: "foldl (cleanStep r) [] (replicate n ''..'') = replicate n ''..''"
  proof (cases r)
    case True
    then show ?thesis using rn by simp
  next
    case False
    then show ?thesis using foldl_cleanStep_dotdots [of 0 n] by simp
  qed
  have "foldl (cleanStep r) [] (rev st)
        = foldl (cleanStep r) (foldl (cleanStep r) [] (replicate n ''..'')) (rev rs)"
    by (simp add: st)
  also have "\<dots> = rev (rev rs) @ replicate n ''..''"
    unfolding a using rs by (intro foldl_cleanStep_real) simp
  finally show ?thesis by (simp add: st)
qed

lemma dotdot_nosep: "PathSeparator \<notin> set ''..''"
  by (simp add: PathSeparator_def)

lemma nfStack_nosep:
  assumes "nfStack r st" and "e \<in> set st"
  shows "PathSeparator \<notin> set e \<and> e \<noteq> []"
proof -
  from assms(1) obtain rs n where st: "st = rs @ replicate n ''..''"
    and rs: "\<forall>e\<in>set rs. realElem e"
    by (auto simp: nfStack_def)
  from assms(2) st have "e \<in> set rs \<or> e = ''..''" by auto
  then show ?thesis
  proof
    assume "e \<in> set rs"
    then show ?thesis using rs by (simp add: realElem_def)
  next
    assume "e = ''..''"
    then show ?thesis using dotdot_nosep by simp
  qed
qed

lemma strings_Join_hd: "es \<noteq> [] \<Longrightarrow> hd es \<noteq> [] \<Longrightarrow> strings_Join es \<noteq> [] \<and> hd (strings_Join es) = hd (hd es)"
  by (induction es rule: strings_Join.induct) auto

lemma isRooted_Join:
  "es \<noteq> [] \<Longrightarrow> hd es \<noteq> [] \<Longrightarrow> PathSeparator \<notin> set (hd es) \<Longrightarrow> \<not> isRooted (strings_Join es)"
  using strings_Join_hd [of es] by (auto simp: isRooted_def) (metis hd_in_set)

lemma cleanElems_Join:
  assumes nf: "nfStack False (rev out)" and ne: "out \<noteq> []"
  shows "cleanElems (strings_Join out) = out" and "\<not> isRooted (strings_Join out)"
proof -
  have ns: "\<forall>e\<in>set out. PathSeparator \<notin> set e \<and> e \<noteq> []"
    using nfStack_nosep [OF nf] by simp
  then have h: "hd out \<noteq> []" "PathSeparator \<notin> set (hd out)" using ne by auto
  show r: "\<not> isRooted (strings_Join out)" using isRooted_Join [OF ne h] .
  have "strings_Split (strings_Join out) PathSeparator = out"
    using strings_Split_Join [OF ne] ns by simp
  then show "cleanElems (strings_Join out) = out"
    unfolding cleanElems_def using r reclean [OF nf] by simp
qed

lemma cleanElems_rooted:
  assumes nf: "nfStack True (rev out)"
  shows "cleanElems (PathSeparator # strings_Join out) = out"
proof (cases "out = []")
  case True
  then show ?thesis by (simp add: cleanElems_def isRooted_def cleanStep.simps)
next
  case False
  have ns: "\<forall>e\<in>set out. PathSeparator \<notin> set e \<and> e \<noteq> []"
    using nfStack_nosep [OF nf] by simp
  have "strings_Split (strings_Join out) PathSeparator = out"
    using strings_Split_Join [OF False] ns by simp
  then have "strings_Split (PathSeparator # strings_Join out) PathSeparator = [] # out"
    by simp
  then show ?thesis
    unfolding cleanElems_def using reclean [OF nf] by (simp add: isRooted_def cleanStep.simps)
qed

lemma isRooted_Clean [simp]: "isRooted (filepath_Clean p) = isRooted p"
proof (cases "isRooted p")
  case True
  then show ?thesis by (simp add: filepath_Clean_def isRooted_def)
next
  case False
  show ?thesis
  proof (cases "cleanElems p = []")
    case True
    then show ?thesis using False by (simp add: filepath_Clean_def isRooted_def PathSeparator_def)
  next
    case ne: False
    have "nfStack False (rev (cleanElems p))" using cleanElems_nf [of p] False by simp
    from cleanElems_Join(2) [OF this ne] show ?thesis using False ne
      by (simp add: filepath_Clean_def)
  qed
qed

lemma cleanElems_Clean [simp]: "cleanElems (filepath_Clean p) = cleanElems p"
proof (cases "isRooted p")
  case True
  then have "nfStack True (rev (cleanElems p))" using cleanElems_nf [of p] by simp
  from cleanElems_rooted [OF this] show ?thesis using True by (simp add: filepath_Clean_def)
next
  case False
  show ?thesis
  proof (cases "cleanElems p = []")
    case True
    then have "filepath_Clean p = ''.''" using False by (simp add: filepath_Clean_def)
    moreover have "cleanElems ''.'' = []"
      by (simp add: cleanElems_def isRooted_def PathSeparator_def cleanStep.simps)
    ultimately show ?thesis using True by simp
  next
    case ne: False
    have "nfStack False (rev (cleanElems p))" using cleanElems_nf [of p] False by simp
    from cleanElems_Join(1) [OF this ne] show ?thesis using False ne
      by (simp add: filepath_Clean_def)
  qed
qed

lemma filepath_Clean_nonempty [simp]: "filepath_Clean p \<noteq> []"
proof (cases "isRooted p \<or> cleanElems p = []")
  case True
  then show ?thesis by (auto simp: filepath_Clean_def)
next
  case False
  then have "nfStack False (rev (cleanElems p))" using cleanElems_nf [of p] by simp
  from nfStack_nosep [OF this] have "hd (cleanElems p) \<noteq> []" using False by simp
  then show ?thesis using False strings_Join_hd [of "cleanElems p"]
    by (simp add: filepath_Clean_def)
qed

lemma isRooted_append [simp]: "a \<noteq> [] \<Longrightarrow> isRooted (a @ b) = isRooted a"
  by (simp add: isRooted_def)

lemma cleanElems_append_real:
  assumes "a \<noteq> []" and "\<forall>e\<in>set rs. realElem e" and "rs \<noteq> []"
  shows "cleanElems (a @ PathSeparator # strings_Join rs) = cleanElems a @ rs"
proof -
  have "\<forall>e\<in>set rs. PathSeparator \<notin> set e" using assms(2) by (simp add: realElem_def)
  then have "strings_Split (strings_Join rs) PathSeparator = rs"
    using strings_Split_Join assms(3) by simp
  then show ?thesis
    unfolding cleanElems_def
    by (simp add: strings_Split_append assms(1) foldl_cleanStep_real [OF assms(2)])
qed

lemma cleanElems_append_empty:
  assumes "a \<noteq> []"
  shows "cleanElems (a @ [PathSeparator]) = cleanElems a"
  unfolding cleanElems_def
  by (simp add: strings_Split_append assms(1) cleanStep.simps)



lemma filepath_Split_file_nosep:
  "filepath_Split p = (d, f) \<Longrightarrow> PathSeparator \<notin> set f"
proof -
  assume "filepath_Split p = (d, f)"
  then have "f = rev (takeWhile (\<lambda>c. c \<noteq> PathSeparator) (rev p))"
    by (simp add: filepath_Split_def Let_def)
  then show ?thesis by (auto dest: set_takeWhileD)
qed

lemma strings_EqualFold_length:
  "strings_EqualFold s t \<Longrightarrow> length t \<le> length s"
  by (induction s t rule: strings_EqualFold.induct) (auto split: if_splits)

lemma kept_fileName_real:
  assumes "\<not> skipsFileName f" and "PathSeparator \<notin> set f"
  shows "realElem f"
proof (cases "strings_EqualFold f ''.version''")
  case True
  from strings_EqualFold_length [OF this] have "8 \<le> length f" by simp
  then have "f \<noteq> [] \<and> f \<noteq> ''.'' \<and> f \<noteq> ''..''" by auto
  then show ?thesis using assms(2) by (simp add: realElem_def)
next
  case False
  with assms(1) have a: "\<not> TrimSpace_empty f" and b: "\<not> strings_HasPrefix f ''.''"
    by (auto simp: skipsFileName_def)
  from a have "f \<noteq> []" by auto
  moreover from b have "f \<noteq> ''.'' \<and> f \<noteq> ''..''" by (auto simp: strings_HasPrefix_def)
  ultimately show ?thesis using assms(2) by (simp add: realElem_def)
qed

lemma nfStack_real: "\<forall>e\<in>set rs. realElem e \<Longrightarrow> nfStack r (rev rs)"
  unfolding nfStack_def by (rule exI [of _ "rev rs"], rule exI [of _ 0]) simp

lemma strings_Join_dotdot_prefix: "strings_HasPrefix (strings_Join (''..'' # xs)) ''.''"
  by (cases xs) (simp_all add: strings_HasPrefix_def)

lemma relative_form:
  assumes ns: "\<forall>e\<in>set cs. PathSeparator \<notin> set e"
    and np: "\<not> strings_HasPrefix (filepath_Join cs) ''.''"
  shows "filepath_Join cs = [] \<or>
         (\<exists>rs. rs \<noteq> [] \<and> (\<forall>e\<in>set rs. realElem e) \<and> filepath_Join cs = strings_Join rs)"
proof (cases "dropWhile (\<lambda>e. e = []) cs")
  case Nil
  show ?thesis unfolding filepath_Join_def Nil by simp
next
  case (Cons e es)
  define X where "X = strings_Join (e # es)"
  have J: "filepath_Join cs = filepath_Clean X" by (simp add: filepath_Join_def Cons X_def)
  have e: "e \<noteq> []" using hd_dropWhile [of "\<lambda>e. e = []" cs] Cons by auto
  have "set (e # es) \<subseteq> set cs" using set_dropWhileD [of _ "\<lambda>e. e = []" cs] Cons by auto
  then have ns': "\<forall>x\<in>set (e # es). PathSeparator \<notin> set x" using ns by blast
  have nr: "\<not> isRooted X" unfolding X_def using isRooted_Join [of "e # es"] e ns' by simp
  have nf: "nfStack False (rev (cleanElems X))" using cleanElems_nf [of X] nr by simp
  then obtain rs n where st: "rev (cleanElems X) = rs @ replicate n ''..''"
    and rs: "\<forall>e\<in>set rs. realElem e"
    by (auto simp: nfStack_def)
  then have ce: "cleanElems X = replicate n ''..'' @ rev rs"
    by (metis rev_append rev_replicate rev_rev_ident)
  have ne: "cleanElems X \<noteq> []"
  proof
    assume "cleanElems X = []"
    then have "filepath_Clean X = ''.''" using nr by (simp add: filepath_Clean_def)
    then show False using np J by (simp add: strings_HasPrefix_def)
  qed
  then have C: "filepath_Clean X = strings_Join (cleanElems X)"
    using nr by (simp add: filepath_Clean_def)
  have "n = 0"
  proof (rule ccontr)
    assume "n \<noteq> 0"
    then obtain m where "n = Suc m" by (cases n) auto
    then have "cleanElems X = ''..'' # (replicate m ''..'' @ rev rs)" using ce by simp
    then show False using np J C strings_Join_dotdot_prefix by simp
  qed
  then have "cleanElems X = rev rs" using ce by simp
  then show ?thesis using ne rs J C by (intro disjI2 exI [of _ "rev rs"]) auto
qed

lemma cleanElems_Nil [simp]: "cleanElems [] = []"
  by (simp add: cleanElems_def cleanStep.simps)

lemma isRooted_Nil [simp]: "\<not> isRooted []"
  by (simp add: isRooted_def)

lemma templateDirectory_form:
  assumes rel: "rel = [] \<or> (\<exists>rs. rs \<noteq> [] \<and> (\<forall>e\<in>set rs. realElem e) \<and> rel = strings_Join rs)"
  shows "\<exists>rs. (\<forall>e\<in>set rs. realElem e) \<and>
           cleanElems (filepath_Join [base, rel]) = cleanElems base @ rs \<and>
           isRooted (filepath_Join [base, rel]) = isRooted base \<and>
           (filepath_Join [base, rel] = [] \<longrightarrow> base = [])"
proof (cases "base = []")
  case bn: True
  from rel show ?thesis
  proof
    assume "rel = []"
    then show ?thesis using bn by (intro exI [of _ "[]"]) (simp add: filepath_Join_def)
  next
    assume "\<exists>rs. rs \<noteq> [] \<and> (\<forall>e\<in>set rs. realElem e) \<and> rel = strings_Join rs"
    then obtain rs where rs: "rs \<noteq> []" "\<forall>e\<in>set rs. realElem e" "rel = strings_Join rs"
      by blast
    have nf: "nfStack False (rev rs)" using nfStack_real [OF rs(2)] .
    have "hd rs \<noteq> []" using rs(1,2) by (auto simp: realElem_def)
    then have "rel \<noteq> []" using strings_Join_hd [of rs] rs by simp
    then have "filepath_Join [base, rel] = filepath_Clean rel" using bn
      by (simp add: filepath_Join_def)
    then show ?thesis
      using cleanElems_Join [OF nf rs(1)] rs bn by (intro exI [of _ rs]) simp
  qed
next
  case bne: False
  from rel show ?thesis
  proof
    assume "rel = []"
    then have "filepath_Join [base, rel] = filepath_Clean (base @ [PathSeparator])" using bne
      by (simp add: filepath_Join_def)
    then show ?thesis
      using bne cleanElems_append_empty [OF bne] by (intro exI [of _ "[]"]) simp
  next
    assume "\<exists>rs. rs \<noteq> [] \<and> (\<forall>e\<in>set rs. realElem e) \<and> rel = strings_Join rs"
    then obtain rs where rs: "rs \<noteq> []" "\<forall>e\<in>set rs. realElem e" "rel = strings_Join rs"
      by blast
    have "filepath_Join [base, rel] = filepath_Clean (base @ PathSeparator # strings_Join rs)"
      using bne rs by (simp add: filepath_Join_def)
    then show ?thesis
      using bne cleanElems_append_real [OF bne rs(2) rs(1)] rs(2) by (intro exI [of _ rs]) simp
  qed
qed

lemma destination_form:
  assumes f: "realElem f"
  shows "cleanElems (filepath_Join [td, f]) = cleanElems td @ [f] \<and>
         isRooted (filepath_Join [td, f]) = isRooted td"
proof (cases "td = []")
  case True
  have fn: "f \<noteq> []" using f by (simp add: realElem_def)
  have nf: "nfStack False (rev [f])" using nfStack_real [of "[f]"] f by simp
  have "filepath_Join [td, f] = filepath_Clean f" using True fn by (simp add: filepath_Join_def)
  then show ?thesis using cleanElems_Join [OF nf] True by simp
next
  case False
  have "filepath_Join [td, f] = filepath_Clean (td @ PathSeparator # strings_Join [f])"
    using False by (simp add: filepath_Join_def)
  then show ?thesis using cleanElems_append_real [OF False, of "[f]"] f False by simp
qed

lemma calculateTemplateAbsolutePath_cases:
  "calculateTemplateAbsolutePath os p base fs =
     (let td = filepath_Join [base, relativeDirectoryOf p] in
      if skipsFileName (fileNameOf p) \<or> strings_HasPrefix (relativeDirectoryOf p) ''.''
      then (([], True, None), fs)
      else case MkdirAll os td fs of
             (Some err, fs') \<Rightarrow>
               (([], False, Some (''failed to create template folder: '' @ td @ ''. '' @ err)), fs')
           | (None, fs') \<Rightarrow> ((filepath_Join [td, fileNameOf p], False, None), fs'))"
proof (cases "filepath_Split p")
  case (Pair a b)
  then have f: "fileNameOf p = b"
    and r: "relativeDirectoryOf p = filepath_Join (drop 1 (strings_Split a PathSeparator))"
    by (simp_all add: fileNameOf_def relativeDirectoryOf_def)
  show ?thesis
    unfolding f r calculateTemplateAbsolutePath_def Pair skipsFileName_def Let_def by auto
qed

lemma fileNameOf_nosep: "PathSeparator \<notin> set (fileNameOf p)"
  using filepath_Split_file_nosep [of p "fst (filepath_Split p)" "fileNameOf p"]
  by (simp add: fileNameOf_def)

lemma relativeDirectoryOf_form:
  assumes "\<not> strings_HasPrefix (relativeDirectoryOf p) ''.''"
  shows "relativeDirectoryOf p = [] \<or>
         (\<exists>rs. rs \<noteq> [] \<and> (\<forall>e\<in>set rs. realElem e) \<and> relativeDirectoryOf p = strings_Join rs)"
proof -
  have "\<forall>e\<in>set (drop 1 (strings_Split (fst (filepath_Split p)) PathSeparator)).
          PathSeparator \<notin> set e"
    using strings_Split_nosep by (metis in_set_dropD)
  from relative_form [OF this] assms show ?thesis by (simp add: relativeDirectoryOf_def)
qed

lemma resolved_is_descendant:
  assumes keep: "\<not> skipsFileName (fileNameOf p)"
    and np: "\<not> strings_HasPrefix (relativeDirectoryOf p) ''.''"
  shows "isDescendant
           (filepath_Join [filepath_Join [base, relativeDirectoryOf p], fileNameOf p]) base"
proof -
  define td where "td = filepath_Join [base, relativeDirectoryOf p]"
  define dest where "dest = filepath_Join [td, fileNameOf p]"
  from keep fileNameOf_nosep have f: "realElem (fileNameOf p)" by (rule kept_fileName_real)
  from templateDirectory_form [OF relativeDirectoryOf_form [OF np], of base] obtain rs where
    rs: "\<forall>e\<in>set rs. realElem e" and ce: "cleanElems td = cleanElems base @ rs"
    and ro: "isRooted td = isRooted base"
    unfolding td_def by blast
  from destination_form [OF f, of td] have
    "cleanElems dest = cleanElems base @ rs @ [fileNameOf p]" "isRooted dest = isRooted base"
    using ce ro dest_def by simp_all
  moreover have "''..'' \<notin> set (rs @ [fileNameOf p])"
  proof
    assume "''..'' \<in> set (rs @ [fileNameOf p])"
    then have "realElem ''..''" using rs f by auto
    then show False by (simp add: realElem_def)
  qed
  ultimately have "isDescendant dest base" by (simp add: isDescendant_def Let_def)
  then show ?thesis by (simp add: dest_def td_def)
qed

lemma strings_Join_append:
  "xs \<noteq> [] \<Longrightarrow> ys \<noteq> [] \<Longrightarrow>
   strings_Join (xs @ ys) = strings_Join xs @ PathSeparator # strings_Join ys"
proof (induction xs rule: strings_Join.induct)
  case 1
  then show ?case by simp
next
  case (2 e)
  then show ?case by (cases ys) simp_all
next
  case (3 e f es)
  then show ?case by simp
qed

text \<open>
  In terms of the cleaned paths themselves: below a directory other than the root and the
  current directory, the cleaned path of a descendant begins with the cleaned directory
  and a separator.
\<close>

lemma isDescendant_prefix:
  assumes d: "isDescendant path dir" and ne: "cleanElems dir \<noteq> []"
  shows "strings_HasPrefix (filepath_Clean path) (filepath_Clean dir @ [PathSeparator])"
proof -
  define rest where "rest = drop (length (cleanElems dir)) (cleanElems path)"
  from d have r: "isRooted path = isRooted dir"
    and l: "length (cleanElems dir) < length (cleanElems path)"
    and t: "take (length (cleanElems dir)) (cleanElems path) = cleanElems dir"
    by (simp_all add: isDescendant_def Let_def)
  have p: "cleanElems path = cleanElems dir @ rest"
    using t append_take_drop_id [of "length (cleanElems dir)" "cleanElems path"]
    by (simp add: rest_def)
  have rn: "rest \<noteq> []" using l by (simp add: rest_def)
  have j: "strings_Join (cleanElems path) =
      strings_Join (cleanElems dir) @ PathSeparator # strings_Join rest"
    unfolding p by (rule strings_Join_append [OF ne rn])
  have pn: "cleanElems path \<noteq> []" using p ne by simp
  show ?thesis
    using r j ne pn by (simp add: filepath_Clean_def strings_HasPrefix_def)
qed

lemma isDescendant_examples:
  "isDescendant ''/base/a/f.txt'' ''/base''"
  "\<not> isDescendant ''/base'' ''/base''"
  "\<not> isDescendant ''/etc/passwd'' ''/base''"
  "\<not> isDescendant ''/base/../etc/passwd'' ''/base''"
  "\<not> isDescendant ''../f.txt'' ''''"
  "isDescendant ''a/f.txt'' ''''"
  by code_simp+

text \<open>
  C1. Whatever the entry path, the base directory and the file system, the function skips
  the entry, or returns an error, or returns a path that is a descendant of the base
  directory.
\<close>

theorem calculateTemplateAbsolutePath_descendant:
  assumes "calculateTemplateAbsolutePath os p base fs = ((dest, skip, err), fs')"
  shows "skip \<or> err \<noteq> None \<or> isDescendant dest base"
proof (cases "skipsFileName (fileNameOf p) \<or> strings_HasPrefix (relativeDirectoryOf p) ''.''")
  case True
  with assms show ?thesis by (simp add: calculateTemplateAbsolutePath_cases)
next
  case False
  then have d: "isDescendant
      (filepath_Join [filepath_Join [base, relativeDirectoryOf p], fileNameOf p]) base"
    using resolved_is_descendant by blast
  show ?thesis
  proof (cases "MkdirAll os (filepath_Join [base, relativeDirectoryOf p]) fs")
    case (Pair r fs1)
    then show ?thesis using assms False d
      by (cases r) (auto simp: calculateTemplateAbsolutePath_cases Let_def)
  qed
qed

lemma calc_example:
  "calculateTemplateAbsolutePath logOS ''root/a/b/f.txt'' ''/base'' [] =
     ((''/base/a/b/f.txt'', False, None), [''/base/a/b''])"
  by code_simp

theorem calculateTemplateAbsolutePath_descendant_witness:
  "calculateTemplateAbsolutePath logOS ''root/a/b/f.txt'' ''/base'' [] =
     ((''/base/a/b/f.txt'', False, None), [''/base/a/b'']) \<and>
   isDescendant ''/base/a/b/f.txt'' ''/base''"
  using calculateTemplateAbsolutePath_descendant [OF calc_example] calc_example by simp

section \<open>The root component and the guard on the directory\<close>









text \<open>
  C10, as amended. An entry named .version whose relative directory, the cleaned join
  (\<open>filepath.Join\<close>) of the elements of its directory after the first, begins with a dot
  is skipped all the same: the file-name rules let the name through, the guard on the
  directory does not.
\<close>

theorem version_marker_directory_guard:
  assumes "fileNameOf p = ''.version''"
    and "strings_HasPrefix (relativeDirectoryOf p) ''.''"
  shows "\<not> skipsFileName (fileNameOf p) \<and>
         calculateTemplateAbsolutePath os p base fs = (([], True, None), fs)"
proof -
  have "strings_EqualFold (fileNameOf p) ''.version''" unfolding assms(1) by code_simp
  then have "\<not> skipsFileName (fileNameOf p)" by (simp add: skipsFileName_def)
  moreover have "calculateTemplateAbsolutePath os p base fs = (([], True, None), fs)"
    using assms(2) by (simp add: calculateTemplateAbsolutePath_cases)
  ultimately show ?thesis by (rule conjI)
qed

theorem version_marker_directory_guard_witness:
  "fileNameOf ''root/.git/.version'' = ''.version'' \<and>
   strings_HasPrefix (relativeDirectoryOf ''root/.git/.version'') ''.'' \<and>
   \<not> skipsFileName (fileNameOf ''root/.git/.version'') \<and>
   calculateTemplateAbsolutePath logOS ''root/.git/.version'' ''/base'' [] = (([], True, None), [])"
proof -
  have a: "fileNameOf ''root/.git/.version'' = ''.version''" by code_simp
  have b: "strings_HasPrefix (relativeDirectoryOf ''root/.git/.version'') ''.''" by code_simp
  note t = version_marker_directory_guard [OF a b, of logOS "''/base''" "[]"]
  show ?thesis
    by (intro conjI) (rule a b conjunct1 [OF t] conjunct2 [OF t])+
qed

text \<open>
  The entries root/./a/.version and root/.git/../a/.version: what is left of the directory
  after the first component begins with a dot, the cleaned join is a, and the entry is
  resolved, not skipped.
\<close>

theorem version_marker_uncleaned_dot_counterexample:
  "fileNameOf ''root/./a/.version'' = ''.version'' \<and>
   strings_HasPrefix (strippedDirectoryOf ''root/./a/.version'') ''.'' \<and>
   calculateTemplateAbsolutePath logOS ''root/./a/.version'' ''/base'' [] =
     ((''/base/a/.version'', False, None), [''/base/a'']) \<and>
   fileNameOf ''root/.git/../a/.version'' = ''.version'' \<and>
   strings_HasPrefix (strippedDirectoryOf ''root/.git/../a/.version'') ''.'' \<and>
   calculateTemplateAbsolutePath logOS ''root/.git/../a/.version'' ''/base'' [] =
     ((''/base/a/.version'', False, None), [''/base/a''])"
proof (intro conjI)
  show "fileNameOf ''root/./a/.version'' = ''.version''" by code_simp
  show "strings_HasPrefix (strippedDirectoryOf ''root/./a/.version'') ''.''" by code_simp
  show "calculateTemplateAbsolutePath logOS ''root/./a/.version'' ''/base'' [] =
     ((''/base/a/.version'', False, None), [''/base/a''])" by code_simp
  show "fileNameOf ''root/.git/../a/.version'' = ''.version''" by code_simp
  show "strings_HasPrefix (strippedDirectoryOf ''root/.git/../a/.version'') ''.''" by code_simp
  show "calculateTemplateAbsolutePath logOS ''root/.git/../a/.version'' ''/base'' [] =
     ((''/base/a/.version'', False, None), [''/base/a''])" by code_simp
qed

section \<open>File names that are skipped, and directories that cannot be created\<close>


declare strings_EqualFold.simps [simp del] TrimSpace_empty.simps [simp del]

lemma kept_not_skipped:
  assumes "\<not> skipsFileName (fileNameOf p)"
    and "\<not> strings_HasPrefix (relativeDirectoryOf p) ''.''"
  shows "\<not> fst (snd (fst (calculateTemplateAbsolutePath os p base fs)))"
proof (cases "MkdirAll os (filepath_Join [base, relativeDirectoryOf p]) fs")
  case (Pair r fs1)
  then show ?thesis using assms
    by (cases r) (simp_all add: calculateTemplateAbsolutePath_cases Let_def)
qed

text \<open>
  C3, as amended. An entry is skipped, without an error and without touching the file
  system, when its file name is empty or white space only, begins with a dot, or matches
  README.md up to case, unless the name matches .version up to case. A name that matches
  .version up to case is never skipped by these rules: such an entry is skipped only by the
  guard on its directory.
\<close>

theorem file_name_rules:
  "(\<not> strings_EqualFold (fileNameOf p) ''.version'' \<and>
    (TrimSpace_empty (fileNameOf p) \<or> strings_HasPrefix (fileNameOf p) ''.'' \<or>
     strings_EqualFold (fileNameOf p) ''README.md'') \<longrightarrow>
      calculateTemplateAbsolutePath os p base fs = (([], True, None), fs)) \<and>
   (strings_EqualFold (fileNameOf p) ''.version'' \<and>
    \<not> strings_HasPrefix (relativeDirectoryOf p) ''.'' \<longrightarrow>
      \<not> fst (snd (fst (calculateTemplateAbsolutePath os p base fs))))"
proof (intro conjI impI)
  assume "\<not> strings_EqualFold (fileNameOf p) ''.version'' \<and>
    (TrimSpace_empty (fileNameOf p) \<or> strings_HasPrefix (fileNameOf p) ''.'' \<or>
     strings_EqualFold (fileNameOf p) ''README.md'')"
  then have "skipsFileName (fileNameOf p)" by (simp add: skipsFileName_def)
  then show "calculateTemplateAbsolutePath os p base fs = (([], True, None), fs)"
    by (simp add: calculateTemplateAbsolutePath_cases)
next
  assume a: "strings_EqualFold (fileNameOf p) ''.version'' \<and>
    \<not> strings_HasPrefix (relativeDirectoryOf p) ''.''"
  then have k: "\<not> skipsFileName (fileNameOf p)" by (simp add: skipsFileName_def)
  from a have np: "\<not> strings_HasPrefix (relativeDirectoryOf p) ''.''" by (rule conjunct2)
  show "\<not> fst (snd (fst (calculateTemplateAbsolutePath os p base fs)))"
    by (rule kept_not_skipped [OF k np])
qed

theorem file_name_rules_witness:
  "\<not> strings_EqualFold (fileNameOf ''root/docs/ReadMe.MD'') ''.version'' \<and>
   strings_EqualFold (fileNameOf ''root/docs/ReadMe.MD'') ''README.md'' \<and>
   calculateTemplateAbsolutePath logOS ''root/docs/ReadMe.MD'' ''/base'' [] = (([], True, None), []) \<and>
   strings_EqualFold (fileNameOf ''root/.version'') ''.version'' \<and>
   \<not> strings_HasPrefix (relativeDirectoryOf ''root/.version'') ''.'' \<and>
   \<not> fst (snd (fst (calculateTemplateAbsolutePath logOS ''root/.version'' ''/base'' [])))"
proof -
  have a: "\<not> strings_EqualFold (fileNameOf ''root/docs/ReadMe.MD'') ''.version''" by code_simp
  have b: "strings_EqualFold (fileNameOf ''root/docs/ReadMe.MD'') ''README.md''" by code_simp
  have c: "strings_EqualFold (fileNameOf ''root/.version'') ''.version''" by code_simp
  have d: "\<not> strings_HasPrefix (relativeDirectoryOf ''root/.version'') ''.''" by code_simp
  have h1: "calculateTemplateAbsolutePath logOS ''root/docs/ReadMe.MD'' ''/base'' [] =
      (([], True, None), [])"
    by (rule mp [OF conjunct1 [OF file_name_rules]]) (intro conjI disjI2, rule a, rule b)
  have h2: "\<not> fst (snd (fst (calculateTemplateAbsolutePath logOS ''root/.version'' ''/base'' [])))"
    by (rule mp [OF conjunct2 [OF file_name_rules]]) (intro conjI, rule c, rule d)
  show ?thesis
    by (intro conjI) (rule a b c d h1 h2)+
qed

text \<open>
  The entry root/.VERSION: its file name begins with a dot and is not .version, and it is
  resolved, not skipped.
\<close>

theorem upper_case_version_marker_counterexample:
  "strings_HasPrefix (fileNameOf ''root/.VERSION'') ''.'' \<and>
   fileNameOf ''root/.VERSION'' \<noteq> ''.version'' \<and>
   calculateTemplateAbsolutePath logOS ''root/.VERSION'' ''/base'' [] =
     ((''/base/.VERSION'', False, None), [''/base''])"
proof (intro conjI)
  show "strings_HasPrefix (fileNameOf ''root/.VERSION'') ''.''" by code_simp
  show "fileNameOf ''root/.VERSION'' \<noteq> ''.version''" by code_simp
  show "calculateTemplateAbsolutePath logOS ''root/.VERSION'' ''/base'' [] =
     ((''/base/.VERSION'', False, None), [''/base''])" by code_simp
qed

lemma forEachEntry_abort:
  "forEachEntry cb pre fs0 = (None, fs) \<Longrightarrow> cb f fs = (Some err, fs1) \<Longrightarrow>
   forEachEntry cb (pre @ f # rest) fs0 = (Some err, fs1)"
proof (induction pre arbitrary: fs0)
  case Nil
  then show ?case by simp
next
  case (Cons x pre)
  obtain r fs' where x: "cb x fs0 = (r, fs')" by (cases "cb x fs0")
  with Cons.prems(1) have "r = None" and "forEachEntry cb pre fs' = (None, fs)"
    by (cases r; simp)+
  then show ?case using Cons.IH [of fs'] Cons.prems(2) x by simp
qed

text \<open>
  C5. When the entry is not skipped and the destination directory cannot be created, the
  function returns an error with skip = false; the callback returns that error; the
  iteration stops there, whatever entries follow, and GetUpdateDirFromRepoCallback fails
  with that error wrapped, the file system being as the failed MkdirAll left it.
\<close>

theorem mkdir_failure_aborts:
  assumes keep: "\<not> skipsFileName (fileNameOf (Name f))"
      "\<not> strings_HasPrefix (relativeDirectoryOf (Name f)) ''.''"
    and mk: "MkdirAll os (filepath_Join [dir, relativeDirectoryOf (Name f)]) fs = (Some err, fs1)"
    and before: "forEachEntry (callback e os dir) pre fs0 = (None, fs)"
    and dl: "NewghReleaseDownloader e (if repoName = [] then tool else repoName) = Inr d"
      "SourceArchive e d = Inr (pre @ f # rest)"
    and msg: "msg = ''failed to create template folder: '' @
                filepath_Join [dir, relativeDirectoryOf (Name f)] @ ''. '' @ err"
  shows "calculateTemplateAbsolutePath os (Name f) dir fs = (([], False, Some msg), fs1) \<and>
         callback e os dir f fs = (Some msg, fs1) \<and>
         snd (GetUpdateDirFromRepoCallback e os tool dir repoName fs0) =
           (Some (NewWithErr e msg (msgDownloadFailed msg) []), fs1)"
proof -
  have c: "calculateTemplateAbsolutePath os (Name f) dir fs = (([], False, Some msg), fs1)"
    using keep mk msg by (simp add: calculateTemplateAbsolutePath_cases Let_def)
  then have cb: "callback e os dir f fs = (Some msg, fs1)"
    by (simp add: callback_def)
  from forEachEntry_abort [OF before cb]
  have "DownloadSourceWithCallback e d (callback e os dir) fs0 = (Some msg, fs1)"
    using dl(2) by (simp add: DownloadSourceWithCallback_def)
  then have "snd (GetUpdateDirFromRepoCallback e os tool dir repoName fs0) =
      (Some (NewWithErr e msg (msgDownloadFailed msg) []), fs1)"
    using dl(1) by (simp add: GetUpdateDirFromRepoCallback_def Let_def)
  with c cb show ?thesis by (intro conjI)
qed

theorem mkdir_failure_aborts_witness:
  "calculateTemplateAbsolutePath denyOS ''root/bad/y.txt'' ''/base'' [''/base/a'', ''/base/a/x.txt''] =
     (([], False, Some ''failed to create template folder: /base/bad. permission denied''),
      [''/base/a'', ''/base/a/x.txt'']) \<and>
   GetUpdateDirFromRepoCallback sampleEnv denyOS ''tool'' ''/base'' [] [] =
     ([Call_NewghReleaseDownloader ''tool''],
      Some ''failed to download latest release got failed to create template folder: /base/bad. permission denied'',
      [''/base/a'', ''/base/a/x.txt''])"
proof -
  define f where "f = \<lparr>Name = ''root/bad/y.txt'', Mode = 420, Data = Inr ''y''\<rparr>"
  define pre where "pre = [\<lparr>Name = ''root/a/x.txt'', Mode = 420, Data = Inr ''x''\<rparr>]"
  define rest where "rest = [\<lparr>Name = ''root/c/z.txt'', Mode = 420, Data = Inr ''z''\<rparr>]"
  have n: "Name f = ''root/bad/y.txt''" by (simp add: f_def)
  have k1: "\<not> skipsFileName (fileNameOf (Name f))" unfolding n by code_simp
  have k2: "\<not> strings_HasPrefix (relativeDirectoryOf (Name f)) ''.''" unfolding n by code_simp
  have td: "filepath_Join [''/base'', relativeDirectoryOf (Name f)] = ''/base/bad''"
    unfolding n by code_simp
  have mk: "MkdirAll denyOS (filepath_Join [''/base'', relativeDirectoryOf (Name f)])
      [''/base/a'', ''/base/a/x.txt''] = (Some ''permission denied'', [''/base/a'', ''/base/a/x.txt''])"
    unfolding td by (simp add: denyOS_def)
  have before: "forEachEntry (callback sampleEnv denyOS ''/base'') pre [] =
      (None, [''/base/a'', ''/base/a/x.txt''])"
    unfolding pre_def by code_simp
  have dl1: "NewghReleaseDownloader sampleEnv (if ([]::string) = [] then ''tool'' else []) =
      Inr sampleRelease"
    by (simp add: sampleEnv_def)
  have dl2: "SourceArchive sampleEnv sampleRelease = Inr (pre @ f # rest)"
    by (simp add: sampleEnv_def sampleArchive_def pre_def f_def rest_def)
  have msg: "''failed to create template folder: /base/bad. permission denied'' =
      ''failed to create template folder: '' @
      filepath_Join [''/base'', relativeDirectoryOf (Name f)] @ ''. '' @ ''permission denied''"
    unfolding td by simp
  note t = mkdir_failure_aborts [OF k1 k2 mk before dl1 dl2 msg, unfolded n]
  have ev: "fst (GetUpdateDirFromRepoCallback sampleEnv denyOS ''tool'' ''/base'' [] []) =
      [Call_NewghReleaseDownloader ''tool'']"
    by code_simp
  have w: "NewWithErr sampleEnv m s tags = s" for m s tags by (simp add: sampleEnv_def)
  have s: "snd (GetUpdateDirFromRepoCallback sampleEnv denyOS ''tool'' ''/base'' [] []) =
     (Some ''failed to download latest release got failed to create template folder: /base/bad. permission denied'',
      [''/base/a'', ''/base/a/x.txt''])"
    using conjunct2 [OF conjunct2 [OF t]] unfolding w by (simp add: msgDownloadFailed_def)
  have "GetUpdateDirFromRepoCallback sampleEnv denyOS ''tool'' ''/base'' [] [] =
     ([Call_NewghReleaseDownloader ''tool''],
      Some ''failed to download latest release got failed to create template folder: /base/bad. permission denied'',
      [''/base/a'', ''/base/a/x.txt''])"
    using ev s by (metis prod.collapse)
  with conjunct1 [OF t] show ?thesis by (intro conjI)
qed



section \<open>The callback that updates the executable\<close>

lemma printReleaseNotes_logs: "ev \<in> set (printReleaseNotes e gh) \<Longrightarrow> \<not> fetchesOrWrites ev"
  by (auto simp: printReleaseNotes_def Let_def split: option.splits sum.splits)

lemma check_precedes:
  "noneBefore fetchesOrWrites Call_CheckPermissions
     (fst (GetUpdateToolFromRepoCallback e g tool version repoName))"
  unfolding GetUpdateToolFromRepoCallback_def Let_def emit_def gologger_Fatal_def
  by (simp split: sum.split option.split prod.split)

lemma check_failed_no_write:
  assumes "CheckPermissions e = Some err"
  shows "\<forall>ev\<in>set (fst (GetUpdateToolFromRepoCallback e g tool version repoName)).
           \<not> fetchesOrWrites ev"
  unfolding GetUpdateToolFromRepoCallback_def Let_def emit_def gologger_Fatal_def
  using assms by (simp split: sum.split option.split prod.split)

lemma check_failed_runs:
  assumes "CheckPermissions e = Some err"
  shows "Call_CheckPermissions \<notin> set (fst (GetUpdateToolFromRepoCallback e g tool version repoName)) \<or>
         (\<exists>evs msg. GetUpdateToolFromRepoCallback e g tool version repoName =
            (evs @ [Log Fatal ''updater'' msg], Exit 1))"
  unfolding GetUpdateToolFromRepoCallback_def Let_def emit_def gologger_Fatal_def
  using assms by (simp split: sum.split)

lemma check_failed_fatal:
  assumes "CheckPermissions e = Some err"
    and "Call_CheckPermissions \<in> set (fst (GetUpdateToolFromRepoCallback e g tool version repoName))"
  shows "snd (GetUpdateToolFromRepoCallback e g tool version repoName) = Exit 1 \<and>
         isFatalLog (last (fst (GetUpdateToolFromRepoCallback e g tool version repoName)))"
proof -
  from check_failed_runs [OF assms(1), of g tool version repoName] assms(2)
  obtain evs msg where "GetUpdateToolFromRepoCallback e g tool version repoName =
            (evs @ [Log Fatal ''updater'' msg], Exit 1)"
    by blast
  then show ?thesis by simp
qed

text \<open>
  C6. In every run of the callback that updates the executable, no call that obtains the
  bytes of the asset or applies them comes before the permission check. When the check
  fails, no such call happens at all, and a run that reached the check ends with a line
  of level Fatal and exit status 1.
\<close>

theorem permission_check_first:
  "noneBefore fetchesOrWrites Call_CheckPermissions
     (fst (GetUpdateToolFromRepoCallback e g tool version repoName)) \<and>
   (CheckPermissions e \<noteq> None \<longrightarrow>
      (\<forall>ev\<in>set (fst (GetUpdateToolFromRepoCallback e g tool version repoName)).
         \<not> fetchesOrWrites ev) \<and>
      (Call_CheckPermissions \<in> set (fst (GetUpdateToolFromRepoCallback e g tool version repoName)) \<longrightarrow>
         snd (GetUpdateToolFromRepoCallback e g tool version repoName) = Exit 1 \<and>
         isFatalLog (last (fst (GetUpdateToolFromRepoCallback e g tool version repoName)))))"
proof (intro conjI impI)
  show "noneBefore fetchesOrWrites Call_CheckPermissions
     (fst (GetUpdateToolFromRepoCallback e g tool version repoName))"
    by (rule check_precedes)
next
  assume "CheckPermissions e \<noteq> None"
  then obtain err where "CheckPermissions e = Some err" by blast
  then show "\<forall>ev\<in>set (fst (GetUpdateToolFromRepoCallback e g tool version repoName)).
         \<not> fetchesOrWrites ev"
    by (rule check_failed_no_write)
next
  assume "CheckPermissions e \<noteq> None"
    and r: "Call_CheckPermissions \<in> set (fst (GetUpdateToolFromRepoCallback e g tool version repoName))"
  then obtain err where c: "CheckPermissions e = Some err" by blast
  from check_failed_fatal [OF c r]
  show "snd (GetUpdateToolFromRepoCallback e g tool version repoName) = Exit 1"
    and "isFatalLog (last (fst (GetUpdateToolFromRepoCallback e g tool version repoName)))"
    by (rule conjunct1, rule conjunct2)
qed

theorem permission_check_first_witness:
  "CheckPermissions (sampleEnv\<lparr>CheckPermissions := Some ''read-only file system''\<rparr>) \<noteq> None \<and>
   GetUpdateToolFromRepoCallback (sampleEnv\<lparr>CheckPermissions := Some ''read-only file system''\<rparr>)
       initialGlobals ''tool'' ''v1.0.0'' [] =
     ([Call_NewghReleaseDownloader ''tool'', Call_SetToolName ''tool'', Call_CheckPermissions,
       Log Fatal ''updater''
         ''update of tool 1.0.0 -> 1.1.0 failed , insufficient permission detected got: read-only file system''],
      Exit 1) \<and>
   noneBefore fetchesOrWrites Call_CheckPermissions
     (fst (GetUpdateToolFromRepoCallback (sampleEnv\<lparr>CheckPermissions := Some ''read-only file system''\<rparr>)
       initialGlobals ''tool'' ''v1.0.0'' [])) \<and>
   noneBefore fetchesOrWrites Call_CheckPermissions
     (fst (GetUpdateToolFromRepoCallback sampleEnv initialGlobals ''tool'' ''v1.0.0'' [])) \<and>
   Call_Apply ''ELF'' \<in> set (fst (GetUpdateToolFromRepoCallback sampleEnv initialGlobals ''tool'' ''v1.0.0'' []))"
proof (intro conjI)
  show "CheckPermissions (sampleEnv\<lparr>CheckPermissions := Some ''read-only file system''\<rparr>) \<noteq> None"
    by simp
  show "GetUpdateToolFromRepoCallback (sampleEnv\<lparr>CheckPermissions := Some ''read-only file system''\<rparr>)
       initialGlobals ''tool'' ''v1.0.0'' [] =
     ([Call_NewghReleaseDownloader ''tool'', Call_SetToolName ''tool'', Call_CheckPermissions,
       Log Fatal ''updater''
         ''update of tool 1.0.0 -> 1.1.0 failed , insufficient permission detected got: read-only file system''],
      Exit 1)"
    by code_simp
  show "noneBefore fetchesOrWrites Call_CheckPermissions
     (fst (GetUpdateToolFromRepoCallback (sampleEnv\<lparr>CheckPermissions := Some ''read-only file system''\<rparr>)
       initialGlobals ''tool'' ''v1.0.0'' []))"
    by (rule conjunct1 [OF permission_check_first])
  show "noneBefore fetchesOrWrites Call_CheckPermissions
     (fst (GetUpdateToolFromRepoCallback sampleEnv initialGlobals ''tool'' ''v1.0.0'' []))"
    by (rule conjunct1 [OF permission_check_first])
  show "Call_Apply ''ELF'' \<in> set (fst (GetUpdateToolFromRepoCallback sampleEnv initialGlobals ''tool'' ''v1.0.0'' []))"
    by code_simp
qed

lemma tool_only_at_tool:
  assumes "d tool = NewghReleaseDownloader e tool"
  shows "GetUpdateToolFromRepoCallback (e\<lparr>NewghReleaseDownloader := d\<rparr>) g tool version [] =
         GetUpdateToolFromRepoCallback e g tool version []"
  unfolding GetUpdateToolFromRepoCallback_def Let_def printReleaseNotes_def
  using assms by (simp cong: sum.case_cong option.case_cong prod.case_cong if_cong)

lemma version_only_at_tool:
  assumes "d tool = NewghReleaseDownloader e tool"
  shows "GetToolVersionCallback (e\<lparr>NewghReleaseDownloader := d\<rparr>) tool [] =
         GetToolVersionCallback e tool []"
  unfolding GetToolVersionCallback_def Let_def
  using assms by (simp cong: sum.case_cong option.case_cong prod.case_cong)

lemma dir_only_at_tool:
  assumes "d tool = NewghReleaseDownloader e tool"
  shows "GetUpdateDirFromRepoCallback (e\<lparr>NewghReleaseDownloader := d\<rparr>) os tool dir [] fs =
         GetUpdateDirFromRepoCallback e os tool dir [] fs"
proof -
  have cb: "callback (e\<lparr>NewghReleaseDownloader := d\<rparr>) os dir = callback e os dir"
    by (intro ext) (simp add: callback_def cong: sum.case_cong option.case_cong prod.case_cong if_cong)
  show ?thesis
    unfolding GetUpdateDirFromRepoCallback_def Let_def DownloadSourceWithCallback_def cb
    using assms by (simp cong: sum.case_cong option.case_cong prod.case_cong)
qed

lemma release_source_fails:
  assumes "NewghReleaseDownloader e tool = Inl err"
  shows "GetUpdateToolFromRepoCallback e g tool version [] =
           ([Call_NewghReleaseDownloader tool, Log Fatal ''updater'' (msgDownloadFailed err)], Exit 1)"
    and "GetToolVersionCallback e tool [] =
           ([Call_NewghReleaseDownloader tool],
            Inl (NewWithErr e err (msgDownloadFailed err) [''updater'']))"
    and "GetUpdateDirFromRepoCallback e os tool dir [] fs =
           ([Call_NewghReleaseDownloader tool],
            Some (NewWithErr e err (msgDownloadFailed err) [''updater'']), fs)"
  using assms
  by (simp_all add: GetUpdateToolFromRepoCallback_def GetToolVersionCallback_def
      GetUpdateDirFromRepoCallback_def emit_def gologger_Fatal_def)

lemma release_source_answers:
  assumes "NewghReleaseDownloader e tool = Inr gh"
  shows "NewVersion e (TagName gh) = Inl err \<Longrightarrow>
         GetUpdateToolFromRepoCallback e g tool version [] =
           ([Call_NewghReleaseDownloader tool, Call_SetToolName tool,
             Log Fatal ''updater'' (msgTagNotSemver (TagName gh) err)], Exit 1)"
    and "GetToolVersionCallback e tool [] =
           ([Call_NewghReleaseDownloader tool, Call_SetToolName tool],
            case NewVersion e (TagName gh) of
              Inl err \<Rightarrow> Inl (NewWithErr e err (msgTagNotSemver (TagName gh) err) [''updater''])
            | Inr latestVersion \<Rightarrow> Inr latestVersion)"
    and "snd (GetUpdateDirFromRepoCallback e os tool dir [] fs) =
           (case DownloadSourceWithCallback e gh (callback e os dir) fs of
              (Some err, fs') \<Rightarrow> (Some (NewWithErr e err (msgDownloadFailed err) []), fs')
            | (None, fs') \<Rightarrow> (None, fs'))"
  using assms
  by (simp_all add: GetUpdateToolFromRepoCallback_def GetToolVersionCallback_def
      GetUpdateDirFromRepoCallback_def emit_def gologger_Fatal_def Let_def
      split: sum.split option.split prod.split)

text \<open>
  C7. With an empty repository name each of the three callbacks asks the release source
  for the repository named like the tool, before anything else. When the release source
  fails for that name the callback fails with that error; when it answers, the callback
  goes on with that answer; and what the release source would say for any other name
  does not matter. The run is the one with the tool name given as repository name.
\<close>

theorem empty_repoName_is_toolName:
  "(\<forall>err. NewghReleaseDownloader e tool = Inl err \<longrightarrow>
      GetUpdateToolFromRepoCallback e g tool version [] =
        ([Call_NewghReleaseDownloader tool, Log Fatal ''updater'' (msgDownloadFailed err)],
         Exit 1) \<and>
      GetToolVersionCallback e tool [] =
        ([Call_NewghReleaseDownloader tool],
         Inl (NewWithErr e err (msgDownloadFailed err) [''updater''])) \<and>
      GetUpdateDirFromRepoCallback e os tool dir [] fs =
        ([Call_NewghReleaseDownloader tool],
         Some (NewWithErr e err (msgDownloadFailed err) [''updater'']), fs)) \<and>
   (\<forall>gh. NewghReleaseDownloader e tool = Inr gh \<longrightarrow>
      (\<forall>err. NewVersion e (TagName gh) = Inl err \<longrightarrow>
         GetUpdateToolFromRepoCallback e g tool version [] =
           ([Call_NewghReleaseDownloader tool, Call_SetToolName tool,
             Log Fatal ''updater'' (msgTagNotSemver (TagName gh) err)], Exit 1)) \<and>
      GetToolVersionCallback e tool [] =
        ([Call_NewghReleaseDownloader tool, Call_SetToolName tool],
         case NewVersion e (TagName gh) of
           Inl err \<Rightarrow> Inl (NewWithErr e err (msgTagNotSemver (TagName gh) err) [''updater''])
         | Inr latestVersion \<Rightarrow> Inr latestVersion) \<and>
      snd (GetUpdateDirFromRepoCallback e os tool dir [] fs) =
        (case DownloadSourceWithCallback e gh (callback e os dir) fs of
           (Some err, fs') \<Rightarrow> (Some (NewWithErr e err (msgDownloadFailed err) []), fs')
         | (None, fs') \<Rightarrow> (None, fs'))) \<and>
   (d tool = NewghReleaseDownloader e tool \<longrightarrow>
      GetUpdateToolFromRepoCallback (e\<lparr>NewghReleaseDownloader := d\<rparr>) g tool version [] =
        GetUpdateToolFromRepoCallback e g tool version [] \<and>
      GetToolVersionCallback (e\<lparr>NewghReleaseDownloader := d\<rparr>) tool [] =
        GetToolVersionCallback e tool [] \<and>
      GetUpdateDirFromRepoCallback (e\<lparr>NewghReleaseDownloader := d\<rparr>) os tool dir [] fs =
        GetUpdateDirFromRepoCallback e os tool dir [] fs) \<and>
   take 1 (fst (GetUpdateToolFromRepoCallback e g tool version [])) =
     [Call_NewghReleaseDownloader tool] \<and>
   GetUpdateToolFromRepoCallback e g tool version [] =
     GetUpdateToolFromRepoCallback e g tool version tool \<and>
   take 1 (fst (GetToolVersionCallback e tool [])) = [Call_NewghReleaseDownloader tool] \<and>
   GetToolVersionCallback e tool [] = GetToolVersionCallback e tool tool \<and>
   take 1 (fst (GetUpdateDirFromRepoCallback e os tool dir [] fs)) =
     [Call_NewghReleaseDownloader tool] \<and>
   GetUpdateDirFromRepoCallback e os tool dir [] fs =
     GetUpdateDirFromRepoCallback e os tool dir tool fs"
proof (intro conjI allI impI)
  fix err
  assume f: "NewghReleaseDownloader e tool = Inl err"
  show "GetUpdateToolFromRepoCallback e g tool version [] =
        ([Call_NewghReleaseDownloader tool, Log Fatal ''updater'' (msgDownloadFailed err)],
         Exit 1)"
    by (rule release_source_fails(1) [OF f])
  show "GetToolVersionCallback e tool [] =
        ([Call_NewghReleaseDownloader tool],
         Inl (NewWithErr e err (msgDownloadFailed err) [''updater'']))"
    by (rule release_source_fails(2) [OF f])
  show "GetUpdateDirFromRepoCallback e os tool dir [] fs =
        ([Call_NewghReleaseDownloader tool],
         Some (NewWithErr e err (msgDownloadFailed err) [''updater'']), fs)"
    by (rule release_source_fails(3) [OF f])
next
  fix gh err
  assume a: "NewghReleaseDownloader e tool = Inr gh" and n: "NewVersion e (TagName gh) = Inl err"
  show "GetUpdateToolFromRepoCallback e g tool version [] =
           ([Call_NewghReleaseDownloader tool, Call_SetToolName tool,
             Log Fatal ''updater'' (msgTagNotSemver (TagName gh) err)], Exit 1)"
    by (rule release_source_answers(1) [OF a n])
next
  fix gh
  assume a: "NewghReleaseDownloader e tool = Inr gh"
  show "GetToolVersionCallback e tool [] =
        ([Call_NewghReleaseDownloader tool, Call_SetToolName tool],
         case NewVersion e (TagName gh) of
           Inl err \<Rightarrow> Inl (NewWithErr e err (msgTagNotSemver (TagName gh) err) [''updater''])
         | Inr latestVersion \<Rightarrow> Inr latestVersion)"
    by (rule release_source_answers(2) [OF a])
  show "snd (GetUpdateDirFromRepoCallback e os tool dir [] fs) =
        (case DownloadSourceWithCallback e gh (callback e os dir) fs of
           (Some err, fs') \<Rightarrow> (Some (NewWithErr e err (msgDownloadFailed err) []), fs')
         | (None, fs') \<Rightarrow> (None, fs'))"
    by (rule release_source_answers(3) [OF a])
next
  assume s: "d tool = NewghReleaseDownloader e tool"
  show "GetUpdateToolFromRepoCallback (e\<lparr>NewghReleaseDownloader := d\<rparr>) g tool version [] =
        GetUpdateToolFromRepoCallback e g tool version []"
    by (rule tool_only_at_tool [where d = d and tool = tool and e = e, OF s])
  show "GetToolVersionCallback (e\<lparr>NewghReleaseDownloader := d\<rparr>) tool [] =
        GetToolVersionCallback e tool []"
    by (rule version_only_at_tool [where d = d and tool = tool and e = e, OF s])
  show "GetUpdateDirFromRepoCallback (e\<lparr>NewghReleaseDownloader := d\<rparr>) os tool dir [] fs =
        GetUpdateDirFromRepoCallback e os tool dir [] fs"
    by (rule dir_only_at_tool [where d = d and tool = tool and e = e, OF s])
next
  show "take 1 (fst (GetUpdateToolFromRepoCallback e g tool version [])) =
     [Call_NewghReleaseDownloader tool]"
    by (simp add: GetUpdateToolFromRepoCallback_def emit_def)
  show "GetUpdateToolFromRepoCallback e g tool version [] =
     GetUpdateToolFromRepoCallback e g tool version tool"
    by (simp add: GetUpdateToolFromRepoCallback_def)
  show "take 1 (fst (GetToolVersionCallback e tool [])) = [Call_NewghReleaseDownloader tool]"
    by (simp add: GetToolVersionCallback_def Let_def split: sum.split)
  show "GetToolVersionCallback e tool [] = GetToolVersionCallback e tool tool"
    by (simp add: GetToolVersionCallback_def)
  show "take 1 (fst (GetUpdateDirFromRepoCallback e os tool dir [] fs)) =
     [Call_NewghReleaseDownloader tool]"
    by (simp add: GetUpdateDirFromRepoCallback_def Let_def split: sum.split option.split prod.split)
  show "GetUpdateDirFromRepoCallback e os tool dir [] fs =
     GetUpdateDirFromRepoCallback e os tool dir tool fs"
    by (simp add: GetUpdateDirFromRepoCallback_def)
qed

theorem empty_repoName_is_toolName_witness:
  "NewghReleaseDownloader missingEnv ''tool'' = Inl ''no release'' \<and>
   NewghReleaseDownloader missingEnv [] = Inr sampleRelease \<and>
   GetUpdateToolFromRepoCallback missingEnv initialGlobals ''tool'' ''v1.0.0'' [] =
     ([Call_NewghReleaseDownloader ''tool'',
       Log Fatal ''updater'' ''failed to download latest release got no release''], Exit 1) \<and>
   GetToolVersionCallback missingEnv ''tool'' [] =
     ([Call_NewghReleaseDownloader ''tool''],
      Inl ''failed to download latest release got no release'') \<and>
   GetUpdateDirFromRepoCallback missingEnv logOS ''tool'' ''/base'' [] [] =
     ([Call_NewghReleaseDownloader ''tool''],
      Some ''failed to download latest release got no release'', []) \<and>
   NewghReleaseDownloader namedEnv ''tool'' = Inr sampleRelease \<and>
   NewghReleaseDownloader namedEnv [] = Inl ''no such repository'' \<and>
   GetToolVersionCallback namedEnv ''tool'' [] =
     ([Call_NewghReleaseDownloader ''tool'', Call_SetToolName ''tool''], Inr ''1.1.0'') \<and>
   snd (GetUpdateDirFromRepoCallback namedEnv logOS ''tool'' ''/base'' [] []) =
     (None, [''/base/a'', ''/base/a/x.txt'', ''/base/bad'', ''/base/bad/y.txt'',
             ''/base/c'', ''/base/c/z.txt'']) \<and>
   GetUpdateToolFromRepoCallback namedEnv initialGlobals ''tool'' ''v1.0.0'' [] =
     GetUpdateToolFromRepoCallback sampleEnv initialGlobals ''tool'' ''v1.0.0'' []"
proof -
  have m1: "NewghReleaseDownloader missingEnv ''tool'' = Inl ''no release''"
    by (simp add: missingEnv_def)
  have m2: "NewghReleaseDownloader missingEnv [] = Inr sampleRelease"
    by (simp add: missingEnv_def)
  have n1: "NewghReleaseDownloader namedEnv ''tool'' = Inr sampleRelease"
    by (simp add: namedEnv_def)
  have n2: "NewghReleaseDownloader namedEnv [] = Inl ''no such repository''"
    by (simp add: namedEnv_def)
  have w: "NewWithErr missingEnv err msg tags = msg" for err msg tags
    by (simp add: missingEnv_def sampleEnv_def)
  have msg: "msgDownloadFailed ''no release'' = ''failed to download latest release got no release''"
    by (simp add: msgDownloadFailed_def)
  note tm = empty_repoName_is_toolName [where e = missingEnv and tool = "''tool''"
      and g = initialGlobals and version = "''v1.0.0''" and os = logOS and dir = "''/base''"
      and fs = "[]" and d = "NewghReleaseDownloader missingEnv"]
  note fm = mp [OF spec [OF conjunct1 [OF tm]] m1, unfolded w msg]
  note tn = empty_repoName_is_toolName [where e = sampleEnv and tool = "''tool''"
      and g = initialGlobals and version = "''v1.0.0''" and os = logOS and dir = "''/base''"
      and fs = "[]" and d = "NewghReleaseDownloader namedEnv"]
  have same: "NewghReleaseDownloader namedEnv ''tool'' = NewghReleaseDownloader sampleEnv ''tool''"
    by (simp add: namedEnv_def sampleEnv_def)
  have upd: "sampleEnv\<lparr>NewghReleaseDownloader := NewghReleaseDownloader namedEnv\<rparr> = namedEnv"
    by (simp add: namedEnv_def)
  note only = mp [OF conjunct1 [OF conjunct2 [OF conjunct2 [OF tn]]] same, unfolded upd]
  note tt = empty_repoName_is_toolName [where e = namedEnv and tool = "''tool''"
      and g = initialGlobals and version = "''v1.0.0''" and os = logOS and dir = "''/base''"
      and fs = "[]" and d = "NewghReleaseDownloader namedEnv"]
  note an = mp [OF spec [OF conjunct1 [OF conjunct2 [OF tt]]] n1]
  have v: "(case NewVersion namedEnv (TagName sampleRelease) of
              Inl err \<Rightarrow> Inl (NewWithErr namedEnv err (msgTagNotSemver (TagName sampleRelease) err)
                              [''updater''])
            | Inr latestVersion \<Rightarrow> Inr latestVersion) = Inr ''1.1.0''"
    by (simp add: namedEnv_def sampleEnv_def sampleRelease_def)
  have dl: "(case DownloadSourceWithCallback namedEnv sampleRelease (callback namedEnv logOS ''/base'') [] of
              (Some err, fs') \<Rightarrow> (Some (NewWithErr namedEnv err (msgDownloadFailed err) []), fs')
            | (None, fs') \<Rightarrow> (None, fs')) =
      (None, [''/base/a'', ''/base/a/x.txt'', ''/base/bad'', ''/base/bad/y.txt'',
              ''/base/c'', ''/base/c/z.txt''])"
    by code_simp
  have r1: "GetToolVersionCallback namedEnv ''tool'' [] =
     ([Call_NewghReleaseDownloader ''tool'', Call_SetToolName ''tool''], Inr ''1.1.0'')"
    using conjunct1 [OF conjunct2 [OF an]] unfolding v .
  have r2: "snd (GetUpdateDirFromRepoCallback namedEnv logOS ''tool'' ''/base'' [] []) =
     (None, [''/base/a'', ''/base/a/x.txt'', ''/base/bad'', ''/base/bad/y.txt'',
             ''/base/c'', ''/base/c/z.txt''])"
    using conjunct2 [OF conjunct2 [OF an]] dl by (rule trans)
  show ?thesis
    by (intro conjI)
      (rule m1 m2 n1 n2 conjunct1 [OF fm] conjunct1 [OF conjunct2 [OF fm]]
        conjunct2 [OF conjunct2 [OF fm]] r1 r2 conjunct1 [OF only])+
qed

section \<open>Failure of the apply step\<close>

text \<open>
  C2, as amended. When the apply step fails, the callback prints a line of level Error
  saying that the update failed and is rolled back, then asks for the error of the
  rollback. If there is none, the run ends there with exit status 1 and no line of level
  Fatal; if there is one, the run ends with a line of level Fatal that names the error of
  the rollback and asks to reinstall the tool, and with exit status 1.
\<close>

theorem apply_failure_rollback:
  assumes "NewghReleaseDownloader e (if repoName = [] then tool else repoName) = Inr gh0"
    and "NewVersion e (TagName gh0) = Inr latest"
    and "NewVersion e version = Inr current"
    and "IsOutdated e current latest"
    and "CheckPermissions e = None"
    and "GetExecutableFromAsset e (gh0\<lparr>toolName := tool\<rparr>) = (gh', Inr bin)"
    and "Apply e bin = Some err"
  shows "(RollbackError e err = None \<longrightarrow>
            GetUpdateToolFromRepoCallback e g tool version repoName =
              ([Call_NewghReleaseDownloader (if repoName = [] then tool else repoName),
                Call_SetToolName tool, Call_CheckPermissions, Call_GetExecutableFromAsset,
                Call_Apply bin, Log Error [] (msgRollingBack tool current latest),
                Call_RollbackError err],
               Exit 1) \<and>
            (\<forall>ev\<in>set (fst (GetUpdateToolFromRepoCallback e g tool version repoName)).
               \<not> isFatalLog ev)) \<and>
         (\<forall>err'. RollbackError e err = Some err' \<longrightarrow>
            GetUpdateToolFromRepoCallback e g tool version repoName =
              ([Call_NewghReleaseDownloader (if repoName = [] then tool else repoName),
                Call_SetToolName tool, Call_CheckPermissions, Call_GetExecutableFromAsset,
                Call_Apply bin, Log Error [] (msgRollingBack tool current latest),
                Call_RollbackError err,
                Log Fatal ''updater'' (msgRollbackFailed tool err')],
               Exit 1) \<and>
            msgRollbackFailed tool err' =
              ''rollback of update of '' @ tool @ '' failed got '' @ err' @ '',pls reinstall '' @ tool \<and>
            msgRollbackFailed tool err' \<noteq> msgRollingBack tool current latest)"
proof (intro conjI impI allI)
  assume r: "RollbackError e err = None"
  show c: "GetUpdateToolFromRepoCallback e g tool version repoName =
              ([Call_NewghReleaseDownloader (if repoName = [] then tool else repoName),
                Call_SetToolName tool, Call_CheckPermissions, Call_GetExecutableFromAsset,
                Call_Apply bin, Log Error [] (msgRollingBack tool current latest),
                Call_RollbackError err],
               Exit 1)"
    using assms r
    by (simp add: GetUpdateToolFromRepoCallback_def Let_def emit_def gologger_Fatal_def)
  show "\<forall>ev\<in>set (fst (GetUpdateToolFromRepoCallback e g tool version repoName)). \<not> isFatalLog ev"
    unfolding c by simp
next
  fix err'
  assume r: "RollbackError e err = Some err'"
  show "GetUpdateToolFromRepoCallback e g tool version repoName =
              ([Call_NewghReleaseDownloader (if repoName = [] then tool else repoName),
                Call_SetToolName tool, Call_CheckPermissions, Call_GetExecutableFromAsset,
                Call_Apply bin, Log Error [] (msgRollingBack tool current latest),
                Call_RollbackError err,
                Log Fatal ''updater'' (msgRollbackFailed tool err')],
               Exit 1)"
    using assms r
    by (simp add: GetUpdateToolFromRepoCallback_def Let_def emit_def gologger_Fatal_def)
  show "msgRollbackFailed tool err' =
      ''rollback of update of '' @ tool @ '' failed got '' @ err' @ '',pls reinstall '' @ tool"
    by (simp add: msgRollbackFailed_def)
  show "msgRollbackFailed tool err' \<noteq> msgRollingBack tool current latest"
  proof
    assume "msgRollbackFailed tool err' = msgRollingBack tool current latest"
    then have "take 1 (msgRollbackFailed tool err') = take 1 (msgRollingBack tool current latest)"
      by simp
    then show False by (simp add: msgRollbackFailed_def msgRollingBack_def)
  qed
qed



theorem apply_failure_rollback_witness:
  "Apply rollbackFailsEnv ''ELF'' = Some ''disk full'' \<and>
   RollbackError rollbackFailsEnv ''disk full'' = Some ''cannot restore'' \<and>
   GetUpdateToolFromRepoCallback rollbackFailsEnv initialGlobals ''tool'' ''v1.0.0'' [] =
     ([Call_NewghReleaseDownloader ''tool'', Call_SetToolName ''tool'', Call_CheckPermissions,
       Call_GetExecutableFromAsset, Call_Apply ''ELF'',
       Log Error [] ''update of tool 1.0.0 -> 1.1.0 failed, rolling back update'',
       Call_RollbackError ''disk full'',
       Log Fatal ''updater'' ''rollback of update of tool failed got cannot restore,pls reinstall tool''],
      Exit 1)"
proof -
  have h1: "NewghReleaseDownloader rollbackFailsEnv (if ([]::string) = [] then ''tool'' else []) =
      Inr sampleRelease"
    by (simp add: rollbackFailsEnv_def applyFailsEnv_def sampleEnv_def)
  have h2: "NewVersion rollbackFailsEnv (TagName sampleRelease) = Inr ''1.1.0''"
    by (simp add: rollbackFailsEnv_def applyFailsEnv_def sampleEnv_def sampleRelease_def)
  have h3: "NewVersion rollbackFailsEnv ''v1.0.0'' = Inr ''1.0.0''"
    by (simp add: rollbackFailsEnv_def applyFailsEnv_def sampleEnv_def)
  have h4: "IsOutdated rollbackFailsEnv ''1.0.0'' ''1.1.0''"
    by (simp add: rollbackFailsEnv_def applyFailsEnv_def sampleEnv_def)
  have h5: "CheckPermissions rollbackFailsEnv = None"
    by (simp add: rollbackFailsEnv_def applyFailsEnv_def sampleEnv_def)
  have h6: "GetExecutableFromAsset rollbackFailsEnv (sampleRelease\<lparr>toolName := ''tool''\<rparr>) =
      (sampleRelease\<lparr>toolName := ''tool''\<rparr>, Inr ''ELF'')"
    by (simp add: rollbackFailsEnv_def applyFailsEnv_def sampleEnv_def)
  have h7: "Apply rollbackFailsEnv ''ELF'' = Some ''disk full''"
    by (simp add: rollbackFailsEnv_def applyFailsEnv_def sampleEnv_def)
  have r: "RollbackError rollbackFailsEnv ''disk full'' = Some ''cannot restore''"
    by (simp add: rollbackFailsEnv_def)
  have m1: "msgRollingBack ''tool'' ''1.0.0'' ''1.1.0'' =
      ''update of tool 1.0.0 -> 1.1.0 failed, rolling back update''"
    by (simp add: msgRollingBack_def)
  have m2: "msgRollbackFailed ''tool'' ''cannot restore'' =
      ''rollback of update of tool failed got cannot restore,pls reinstall tool''"
    by (simp add: msgRollbackFailed_def)
  note t = apply_failure_rollback [OF h1 h2 h3 h4 h5 h6 h7, of initialGlobals]
  from mp [OF spec [OF conjunct2 [OF t]] r]
  have "GetUpdateToolFromRepoCallback rollbackFailsEnv initialGlobals ''tool'' ''v1.0.0'' [] =
     ([Call_NewghReleaseDownloader ''tool'', Call_SetToolName ''tool'', Call_CheckPermissions,
       Call_GetExecutableFromAsset, Call_Apply ''ELF'',
       Log Error [] ''update of tool 1.0.0 -> 1.1.0 failed, rolling back update'',
       Call_RollbackError ''disk full'',
       Log Fatal ''updater'' ''rollback of update of tool failed got cannot restore,pls reinstall tool''],
      Exit 1)"
    unfolding m1 m2 by simp
  with h7 r show ?thesis by (intro conjI)
qed

text \<open>
  The run in which applying the update fails and the rollback works: the process exits
  with status 1.
\<close>

theorem rollback_success_exits_counterexample:
  "Apply applyFailsEnv ''ELF'' = Some ''disk full'' \<and>
   RollbackError applyFailsEnv ''disk full'' = None \<and>
   GetUpdateToolFromRepoCallback applyFailsEnv initialGlobals ''tool'' ''v1.0.0'' [] =
     ([Call_NewghReleaseDownloader ''tool'', Call_SetToolName ''tool'', Call_CheckPermissions,
       Call_GetExecutableFromAsset, Call_Apply ''ELF'',
       Log Error [] ''update of tool 1.0.0 -> 1.1.0 failed, rolling back update'',
       Call_RollbackError ''disk full''],
      Exit 1)"
proof (intro conjI)
  show "Apply applyFailsEnv ''ELF'' = Some ''disk full''"
    by (simp add: applyFailsEnv_def)
  show "RollbackError applyFailsEnv ''disk full'' = None"
    by (simp add: applyFailsEnv_def sampleEnv_def)
  show "GetUpdateToolFromRepoCallback applyFailsEnv initialGlobals ''tool'' ''v1.0.0'' [] =
     ([Call_NewghReleaseDownloader ''tool'', Call_SetToolName ''tool'', Call_CheckPermissions,
       Call_GetExecutableFromAsset, Call_Apply ''ELF'',
       Log Error [] ''update of tool 1.0.0 -> 1.1.0 failed, rolling back update'',
       Call_RollbackError ''disk full''],
      Exit 1)"
    by code_simp
qed

section \<open>The parameters of the version check\<close>

lemma upperhex_nth: "n < 16 \<Longrightarrow> upperhex ! n \<in> set upperhex"
proof -
  assume "n < 16"
  moreover have "length upperhex = 16" by (simp add: upperhex_def)
  ultimately show ?thesis using nth_mem [of n upperhex] by simp
qed

lemma upperhex_plain: "CHR ''&'' \<notin> set upperhex" "CHR ''='' \<notin> set upperhex"
  by (simp_all add: upperhex_def)

lemma of_char_div16: "(of_char (c::char) :: nat) div 16 < 16"
proof -
  have "(of_char c :: nat) < 256" by simp
  then show ?thesis by arith
qed

lemma need_escape: "shouldEscape (CHR ''&'')" "shouldEscape (CHR ''='')"
  by (simp_all add: shouldEscape_def isAlnum_def)

lemma escapeByte_plain: "CHR ''&'' \<notin> set (escapeByte c) \<and> CHR ''='' \<notin> set (escapeByte c)"
proof -
  have h1: "upperhex ! ((of_char c :: nat) div 16) \<in> set upperhex"
    by (rule upperhex_nth [OF of_char_div16])
  have h2: "upperhex ! ((of_char c :: nat) mod 16) \<in> set upperhex"
    by (rule upperhex_nth) simp
  have n1: "upperhex ! ((of_char c :: nat) div 16) \<noteq> CHR ''&''"
    "upperhex ! ((of_char c :: nat) div 16) \<noteq> CHR ''=''"
    using h1 upperhex_plain by metis+
  have n2: "upperhex ! ((of_char c :: nat) mod 16) \<noteq> CHR ''&''"
    "upperhex ! ((of_char c :: nat) mod 16) \<noteq> CHR ''=''"
    using h2 upperhex_plain by metis+
  show ?thesis
    using n1 n2 need_escape by (auto simp: escapeByte_def)
qed

lemma QueryEscape_plain: "CHR ''&'' \<notin> set (QueryEscape s) \<and> CHR ''='' \<notin> set (QueryEscape s)"
  using escapeByte_plain by (induction s) (auto simp: QueryEscape_def)


lemma sorted_keys:
  "sort [''os'', ''arch'', ''go_version'', ''v'', ''machine_id''] =
     [''arch'', ''go_version'', ''machine_id'', ''os'', ''v'']"
  by code_simp

lemma escaped_keys:
  "QueryEscape ''os'' = ''os''" "QueryEscape ''arch'' = ''arch''"
  "QueryEscape ''go_version'' = ''go_version''" "QueryEscape ''v'' = ''v''"
  "QueryEscape ''machine_id'' = ''machine_id''"
  by code_simp+

lemma GetpdtmParams_explicit:
  "GetpdtmParams e version =
     ''arch='' @ QueryEscape (GOARCH e) @ ''&go_version='' @ QueryEscape (runtime_Version e) @
     ''&machine_id='' @ QueryEscape (buildMachineId e) @ ''&os='' @ QueryEscape (GOOS e) @
     ''&v='' @ QueryEscape version"
proof -
  have "GetpdtmParams e version =
      Values_Encode [(''os'', [GOOS e]), (''arch'', [GOARCH e]),
        (''go_version'', [runtime_Version e]), (''v'', [version]),
        (''machine_id'', [buildMachineId e])]"
    by (simp add: GetpdtmParams_def Values_Add_def)
  also have "\<dots> =
     ''arch='' @ QueryEscape (GOARCH e) @ ''&go_version='' @ QueryEscape (runtime_Version e) @
     ''&machine_id='' @ QueryEscape (buildMachineId e) @ ''&os='' @ QueryEscape (GOOS e) @
     ''&v='' @ QueryEscape version"
    unfolding Values_Encode_def
    by (simp add: sorted_keys escaped_keys writePair_def)
  finally show ?thesis .
qed

lemma takeWhile_key:
  "CHR ''='' \<notin> set k \<Longrightarrow> takeWhile (\<lambda>c. c \<noteq> CHR ''='') (k @ CHR ''='' # v) = k"
  by (induction k) auto

lemma split_pieces:
  assumes "CHR ''&'' \<notin> set p1" "CHR ''&'' \<notin> set p2" "CHR ''&'' \<notin> set p3"
    "CHR ''&'' \<notin> set p4" "CHR ''&'' \<notin> set p5"
  shows "strings_Split (p1 @ CHR ''&'' # p2 @ CHR ''&'' # p3 @ CHR ''&'' # p4 @ CHR ''&'' # p5)
           (CHR ''&'') = [p1, p2, p3, p4, p5]"
  using assms by (simp add: strings_Split_append strings_Split_single)

text \<open>
  C8, as amended. Whatever the version and the environment, the encoded query has exactly
  the five parameters arch, go_version, machine_id, os and v, in this order, each with
  its escaped value.
\<close>

theorem GetpdtmParams_keys:
  "queryKeys (GetpdtmParams e version) = [''arch'', ''go_version'', ''machine_id'', ''os'', ''v''] \<and>
   GetpdtmParams e version =
     ''arch='' @ QueryEscape (GOARCH e) @ ''&go_version='' @ QueryEscape (runtime_Version e) @
     ''&machine_id='' @ QueryEscape (buildMachineId e) @ ''&os='' @ QueryEscape (GOOS e) @
     ''&v='' @ QueryEscape version"
proof
  define p1 where "p1 = ''arch'' @ CHR ''='' # QueryEscape (GOARCH e)"
  define p2 where "p2 = ''go_version'' @ CHR ''='' # QueryEscape (runtime_Version e)"
  define p3 where "p3 = ''machine_id'' @ CHR ''='' # QueryEscape (buildMachineId e)"
  define p4 where "p4 = ''os'' @ CHR ''='' # QueryEscape (GOOS e)"
  define p5 where "p5 = ''v'' @ CHR ''='' # QueryEscape version"
  have q: "GetpdtmParams e version =
      p1 @ CHR ''&'' # p2 @ CHR ''&'' # p3 @ CHR ''&'' # p4 @ CHR ''&'' # p5"
    by (simp add: GetpdtmParams_explicit p1_def p2_def p3_def p4_def p5_def)
  have ne: "GetpdtmParams e version \<noteq> []" by (simp add: q p1_def)
  have amp: "CHR ''&'' \<notin> set p1" "CHR ''&'' \<notin> set p2" "CHR ''&'' \<notin> set p3"
    "CHR ''&'' \<notin> set p4" "CHR ''&'' \<notin> set p5"
    using QueryEscape_plain by (simp_all add: p1_def p2_def p3_def p4_def p5_def)
  have k: "takeWhile (\<lambda>c. c \<noteq> CHR ''='') p1 = ''arch''"
    "takeWhile (\<lambda>c. c \<noteq> CHR ''='') p2 = ''go_version''"
    "takeWhile (\<lambda>c. c \<noteq> CHR ''='') p3 = ''machine_id''"
    "takeWhile (\<lambda>c. c \<noteq> CHR ''='') p4 = ''os''"
    "takeWhile (\<lambda>c. c \<noteq> CHR ''='') p5 = ''v''"
    unfolding p1_def p2_def p3_def p4_def p5_def by (rule takeWhile_key, simp)+
  show "queryKeys (GetpdtmParams e version) =
      [''arch'', ''go_version'', ''machine_id'', ''os'', ''v'']"
    unfolding queryKeys_def using ne split_pieces [OF amp] k by (simp add: q)
  show "GetpdtmParams e version =
     ''arch='' @ QueryEscape (GOARCH e) @ ''&go_version='' @ QueryEscape (runtime_Version e) @
     ''&machine_id='' @ QueryEscape (buildMachineId e) @ ''&os='' @ QueryEscape (GOOS e) @
     ''&v='' @ QueryEscape version"
    by (rule GetpdtmParams_explicit)
qed

theorem GetpdtmParams_keys_witness:
  "queryKeys (GetpdtmParams sampleEnv ''1.0.0'') =
     [''arch'', ''go_version'', ''machine_id'', ''os'', ''v''] \<and>
   GetpdtmParams sampleEnv ''1.0.0'' =
     ''arch=amd64&go_version=go1.21.0&machine_id=0123abcd&os=linux&v=1.0.0''"
proof
  show "queryKeys (GetpdtmParams sampleEnv ''1.0.0'') =
     [''arch'', ''go_version'', ''machine_id'', ''os'', ''v'']"
    by (rule conjunct1 [OF GetpdtmParams_keys])
  show "GetpdtmParams sampleEnv ''1.0.0'' =
     ''arch=amd64&go_version=go1.21.0&machine_id=0123abcd&os=linux&v=1.0.0''"
    by code_simp
qed

text \<open>For the sample environment there is no parameter tool_runtime_version; there is go_version.\<close>

theorem tool_runtime_version_counterexample:
  "''tool_runtime_version'' \<notin> set (queryKeys (GetpdtmParams sampleEnv ''1.0.0'')) \<and>
   ''go_version'' \<in> set (queryKeys (GetpdtmParams sampleEnv ''1.0.0''))"
proof -
  have "queryKeys (GetpdtmParams sampleEnv ''1.0.0'') =
     [''arch'', ''go_version'', ''machine_id'', ''os'', ''v'']"
    by code_simp
  then show ?thesis by simp
qed

section \<open>The default HTTP client\<close>

text \<open>
  C9. After \<open>init\<close>, whatever the package variables were before, the default HTTP client
  exists and the TLS configuration of its transport has InsecureSkipVerify set; its
  timeout is the version-check timeout, five seconds when the variables are as initialised.
\<close>

theorem init_skips_verification:
  "(\<exists>c t cfg. DefaultHttpClient (init g) = Some c \<and> Transport c = Some t \<and>
      TLSClientConfig t = Some cfg \<and> InsecureSkipVerify cfg \<and> Proxy t = ProxyFromEnvironment \<and>
      Timeout c = VersionCheckTimeout g) \<and>
   DefaultHttpClient initialGlobals = None \<and>
   VersionCheckTimeout initialGlobals = 5000000000"
  by (simp add: init_def initialGlobals_def Second_def)

theorem init_skips_verification_witness:
  "\<exists>c t cfg. DefaultHttpClient (init initialGlobals) = Some c \<and> Transport c = Some t \<and>
      TLSClientConfig t = Some cfg \<and> InsecureSkipVerify cfg \<and> Proxy t = ProxyFromEnvironment \<and>
      Timeout c = VersionCheckTimeout initialGlobals"
  by (rule conjunct1 [OF init_skips_verification])

end
